theory Spec2Isabelle
  imports
    Main
    "HOL-Library.Word"
    "HOL-Library.Multiset"
    "HOL-Library.Char_ord"
    "HOL-Library.List_Lexorder"
    "HOL-Library.Product_Lexorder"
begin

section \<open>Values held by the document store\<close>

text \<open>
  The job tracker (\<^verbatim>\<open>backend/main.py\<close>) keeps its records as documents of one
  MongoDB collection. A document is a Python dict; the handlers only ever write
  \<^verbatim>\<open>None\<close>, strings, datetimes and ObjectIds into it.
\<close>

record datetime =
  year :: nat
  month :: nat
  day :: nat
  hour :: nat
  minute :: nat
  second :: nat
  microsecond :: nat

text \<open>
  An ObjectId of the store is 12 bytes, that is a 96-bit value (\<open>BOid\<close>). The
  constructor \<^verbatim>\<open>ObjectId(s)\<close> can also build an ObjectId of fewer bytes, which no
  document of the store has as its identifier; \<open>BOidShort\<close> holds its bytes.
\<close>

type_synonym oid = "96 word"

datatype bson = BNull | BStr string | BOid oid | BOidShort "nat list" | BDate datetime

text \<open>A dict keeps its keys in insertion order and holds each key once.\<close>

type_synonym document = "(string \<times> bson) list"

type_synonym store = "document list"

definition dict_get :: "document \<Rightarrow> string \<Rightarrow> bson option" where
  "dict_get d k = map_of d k"

fun dict_set :: "('k \<times> 'v) list \<Rightarrow> 'k \<Rightarrow> 'v \<Rightarrow> ('k \<times> 'v) list" where
  "dict_set [] k v = [(k, v)]"
| "dict_set ((k', v') # d) k v = (if k' = k then (k, v) # d else (k', v') # dict_set d k v)"

subsection \<open>Exceptions and HTTP errors\<close>

datatype py_exception =
    KeyError string
  | AttributeError string
  | TypeError
  | ValueError
  | OverflowError
  | InvalidId
  | DuplicateKeyError
  | OperationFailure

text \<open>
  The detail of an \<^verbatim>\<open>HTTPException\<close> is either a literal message of the handler or
  \<^verbatim>\<open>str(e)\<close> of the exception the handler caught.
\<close>

datatype detail = Msg string | StrOf py_exception

datatype http_error = HTTPException nat detail

subsection \<open>Rendering: \<^verbatim>\<open>datetime.isoformat\<close> and \<^verbatim>\<open>str(ObjectId)\<close>\<close>

definition digit_char :: "nat \<Rightarrow> char" where
  "digit_char n = ''0123456789abcdef'' ! n"

text \<open>\<open>to_digits b w n\<close>: the last \<open>w\<close> digits of \<open>n\<close> in base \<open>b\<close>, zero padded.\<close>

fun to_digits :: "nat \<Rightarrow> nat \<Rightarrow> nat \<Rightarrow> string" where
  "to_digits b 0 n = []"
| "to_digits b (Suc w) n = to_digits b w (n div b) @ [digit_char (n mod b)]"

definition isoformat :: "datetime \<Rightarrow> string" where
  "isoformat d =
     to_digits 10 4 (year d) @ ''-'' @ to_digits 10 2 (month d) @ ''-'' @ to_digits 10 2 (day d)
     @ ''T'' @ to_digits 10 2 (hour d) @ '':'' @ to_digits 10 2 (minute d) @ '':''
     @ to_digits 10 2 (second d)
     @ (if microsecond d = 0 then [] else ''.'' @ to_digits 10 6 (microsecond d))"

text \<open>The value of a hexadecimal digit, upper or lower case, from its character code.\<close>

definition hexval :: "char \<Rightarrow> nat option" where
  "hexval c =
     (let k = (of_char c :: nat)
      in if 48 \<le> k \<and> k \<le> 57 then Some (k - 48)
         else if 97 \<le> k \<and> k \<le> 102 then Some (k - 87)
         else if 65 \<le> k \<and> k \<le> 70 then Some (k - 55)
         else None)"

text \<open>ASCII whitespace: tab, line feed, vertical tab, form feed, carriage return, space.\<close>

definition is_space :: "char \<Rightarrow> bool" where
  "is_space c = (let k = (of_char c :: nat) in (9 \<le> k \<and> k \<le> 13) \<or> k = 32)"

text \<open>
  \<^verbatim>\<open>bytes.fromhex(s)\<close>: whitespace before a byte is skipped, then two hexadecimal
  digits give one byte; anything else raises \<^verbatim>\<open>ValueError\<close> (\<open>None\<close> here).
\<close>

fun fromhex :: "string \<Rightarrow> nat list option" where
  "fromhex [] = Some []"
| "fromhex [c] = (if is_space c then Some [] else None)"
| "fromhex (c # c' # cs) =
     (if is_space c then fromhex (c' # cs)
      else case hexval c of
             None \<Rightarrow> None
           | Some hi \<Rightarrow>
               (case hexval c' of
                  None \<Rightarrow> None
                | Some lo \<Rightarrow> map_option (Cons (16 * hi + lo)) (fromhex cs)))"

text \<open>The number a sequence of bytes stands for, and the \<open>k\<close> low bytes of a number.\<close>

definition bytes_value :: "nat list \<Rightarrow> nat" where
  "bytes_value bs = foldl (\<lambda>acc b. 256 * acc + b) 0 bs"

fun to_bytes :: "nat \<Rightarrow> nat \<Rightarrow> nat list" where
  "to_bytes 0 n = []"
| "to_bytes (Suc k) n = to_bytes k (n div 256) @ [n mod 256]"

text \<open>
  \<^verbatim>\<open>ObjectId(s)\<close> of the bson package: a string of 24 characters that
  \<^verbatim>\<open>bytes.fromhex\<close> decodes is accepted, anything else raises \<^verbatim>\<open>InvalidId\<close>. Twenty-four
  hexadecimal digits give the 12 bytes of an identifier; a string with whitespace in it
  gives fewer bytes. \<^verbatim>\<open>ObjectId.is_valid\<close> tries the constructor and reports whether it
  succeeded.
\<close>

definition ObjectId :: "string \<Rightarrow> py_exception + bson" where
  "ObjectId s =
     (if length s = 24 then
        (case fromhex s of
           None \<Rightarrow> Inl InvalidId
         | Some bs \<Rightarrow>
             Inr (if length bs = 12 then BOid (word_of_nat (bytes_value bs)) else BOidShort bs))
      else Inl InvalidId)"

definition is_valid :: "string \<Rightarrow> bool" where
  "is_valid s = (case ObjectId s of Inl _ \<Rightarrow> False | Inr _ \<Rightarrow> True)"

text \<open>\<^verbatim>\<open>str\<close> of an ObjectId: two lower-case hexadecimal digits for each byte.\<close>

definition str_oid :: "oid \<Rightarrow> string" where
  "str_oid x = to_digits 16 24 (unat x)"

definition hex_of :: "nat list \<Rightarrow> string" where
  "hex_of bs = concat (map (\<lambda>b. [digit_char (b div 16), digit_char (b mod 16)]) bs)"

text \<open>
  \<^verbatim>\<open>str(v)\<close> for the values a document holds. Only the ObjectId case is met by a
  document of the store, whose \<^verbatim>\<open>_id\<close> the store assigns.
\<close>

fun py_str :: "bson \<Rightarrow> string" where
  "py_str BNull = ''None''"
| "py_str (BStr s) = s"
| "py_str (BOid x) = str_oid x"
| "py_str (BOidShort bs) = hex_of bs"
| "py_str (BDate d) =
     to_digits 10 4 (year d) @ ''-'' @ to_digits 10 2 (month d) @ ''-'' @ to_digits 10 2 (day d)
     @ '' '' @ to_digits 10 2 (hour d) @ '':'' @ to_digits 10 2 (minute d) @ '':''
     @ to_digits 10 2 (second d)
     @ (if microsecond d = 0 then [] else ''.'' @ to_digits 10 6 (microsecond d))"

text \<open>Python truthiness of a value: \<^verbatim>\<open>None\<close> and the empty string are falsy.\<close>

fun truthy :: "bson \<Rightarrow> bool" where
  "truthy BNull = False"
| "truthy (BStr s) = (s \<noteq> [])"
| "truthy (BOid x) = True"
| "truthy (BOidShort bs) = True"
| "truthy (BDate d) = True"

section \<open>The helper \<^verbatim>\<open>job_helper\<close>\<close>

text \<open>\<^verbatim>\<open>job[k]\<close> raises \<^verbatim>\<open>KeyError\<close> on a missing key; \<^verbatim>\<open>job.get(k)\<close> gives \<^verbatim>\<open>None\<close>.\<close>

definition subscript :: "document \<Rightarrow> string \<Rightarrow> py_exception + bson" where
  "subscript d k = (case dict_get d k of None \<Rightarrow> Inl (KeyError k) | Some v \<Rightarrow> Inr v)"

definition get_or_none :: "document \<Rightarrow> string \<Rightarrow> bson" where
  "get_or_none d k = (case dict_get d k of None \<Rightarrow> BNull | Some v \<Rightarrow> v)"

text \<open>
  The last entry of the dict literal:
  \<^verbatim>\<open>job["date_saved"].isoformat() if job.get("date_saved") else None\<close>.
\<close>

definition date_saved_entry :: "document \<Rightarrow> py_exception + bson" where
  "date_saved_entry d =
     (if truthy (get_or_none d ''date_saved'') then
        (case subscript d ''date_saved'' of
           Inl e \<Rightarrow> Inl e
         | Inr (BDate t) \<Rightarrow> Inr (BStr (isoformat t))
         | Inr _ \<Rightarrow> Inl (AttributeError ''isoformat''))
      else Inr BNull)"

text \<open>Sequencing of steps that may raise: the first exception ends the evaluation.\<close>

definition and_then :: "'e + 'a \<Rightarrow> ('a \<Rightarrow> 'e + 'b) \<Rightarrow> 'e + 'b" where
  "and_then r f = (case r of Inl e \<Rightarrow> Inl e | Inr x \<Rightarrow> f x)"

text \<open>
  The entries of the dict literal are evaluated in the order they are written, so the
  first failing lookup decides the exception.
\<close>

definition job_helper :: "document \<Rightarrow> py_exception + document" where
  "job_helper job =
     and_then (subscript job ''_id'') (\<lambda>i.
     and_then (subscript job ''title'') (\<lambda>t.
     and_then (subscript job ''company'') (\<lambda>c.
     and_then (subscript job ''url'') (\<lambda>u.
     and_then (subscript job ''platform'') (\<lambda>p.
     and_then (subscript job ''status'') (\<lambda>s.
     and_then (date_saved_entry job) (\<lambda>ds.
       Inr [(''id'', BStr (py_str i)),
            (''title'', t),
            (''company'', c),
            (''location'', get_or_none job ''location''),
            (''url'', u),
            (''platform'', p),
            (''description'', get_or_none job ''description''),
            (''status'', s),
            (''notes'', get_or_none job ''notes''),
            (''date_saved'', ds)])))))))"

section \<open>The collection \<^verbatim>\<open>jobs_collection\<close>\<close>

text \<open>
  The collection is the list of its documents in insertion order. The operations below
  are the ones the handlers call on it, with the meaning MongoDB gives them.
\<close>

text \<open>
  An equality condition \<^verbatim>\<open>{k: v}\<close> holds when the field equals \<open>v\<close>; a document
  without the field is matched by \<^verbatim>\<open>{k: None}\<close>. A filter dict is the conjunction of
  its conditions.
\<close>

definition field_eq :: "document \<Rightarrow> string \<Rightarrow> bson \<Rightarrow> bool" where
  "field_eq d k v = (get_or_none d k = v)"

definition matches :: "document \<Rightarrow> document \<Rightarrow> bool" where
  "matches q d = list_all (\<lambda>(k, v). field_eq d k v) q"

definition find_one :: "store \<Rightarrow> document \<Rightarrow> document option" where
  "find_one s q = find (matches q) s"

definition count_documents :: "store \<Rightarrow> document \<Rightarrow> nat" where
  "count_documents s q = length (filter (matches q) s)"

text \<open>A stored date keeps milliseconds only.\<close>

fun stored_value :: "bson \<Rightarrow> bson" where
  "stored_value (BDate t) = BDate (t\<lparr>microsecond := (microsecond t div 1000) * 1000\<rparr>)"
| "stored_value v = v"

text \<open>
  \<^verbatim>\<open>insert_one\<close> on a dict without \<^verbatim>\<open>_id\<close>: the driver generates an ObjectId
  (\<open>new_id\<close>, an input of the model), the store puts it in front of the document and
  refuses an identifier it already holds.
\<close>

definition insert_one :: "store \<Rightarrow> document \<Rightarrow> oid \<Rightarrow> py_exception + (oid \<times> store)" where
  "insert_one s doc new_id =
     (if find_one s [(''_id'', BOid new_id)] \<noteq> None then Inl DuplicateKeyError
      else Inr (new_id, s @ [(''_id'', BOid new_id) # map (\<lambda>(k, v). (k, stored_value v)) doc]))"

text \<open>\<^verbatim>\<open>{"$set": update_data}\<close> assigns the fields of \<open>update_data\<close> one by one.\<close>

definition set_fields :: "document \<Rightarrow> document \<Rightarrow> document" where
  "set_fields upd d = fold (\<lambda>(k, v) d'. dict_set d' k (stored_value v)) upd d"

text \<open>
  \<^verbatim>\<open>update_one\<close> changes the first document the filter matches and returns
  \<^verbatim>\<open>matched_count\<close>; \<^verbatim>\<open>delete_one\<close> removes it and returns \<^verbatim>\<open>deleted_count\<close>.
\<close>

fun update_one :: "store \<Rightarrow> document \<Rightarrow> document \<Rightarrow> nat \<times> store" where
  "update_one [] q upd = (0, [])"
| "update_one (d # s) q upd =
     (if matches q d then (1, set_fields upd d # s)
      else (case update_one s q upd of (n, s') \<Rightarrow> (n, d # s')))"

fun delete_one :: "store \<Rightarrow> document \<Rightarrow> nat \<times> store" where
  "delete_one [] q = (0, [])"
| "delete_one (d # s) q =
     (if matches q d then (1, s)
      else (case delete_one s q of (n, s') \<Rightarrow> (n, d # s')))"

subsection \<open>Cursors: sort, skip, limit, \<^verbatim>\<open>to_list\<close>\<close>

text \<open>
  The store compares values of different types by type first (null, then strings, then
  ObjectIds, then dates) and values of one type by their natural order; a missing field
  sorts as null. An ObjectId of fewer than 12 bytes, which no document holds, is placed
  among the ObjectIds by its bytes.
\<close>

definition dt_fields :: "datetime \<Rightarrow> nat list" where
  "dt_fields t = [year t, month t, day t, hour t, minute t, second t, microsecond t]"

fun bson_key :: "bson \<Rightarrow> nat \<times> string \<times> oid \<times> nat list" where
  "bson_key BNull = (0, [], 0, [])"
| "bson_key (BStr s) = (1, s, 0, [])"
| "bson_key (BOid x) = (2, [], x, [])"
| "bson_key (BOidShort bs) = (2, [], 0, bs)"
| "bson_key (BDate t) = (3, [], 0, dt_fields t)"

definition sort_field :: "string \<Rightarrow> document \<Rightarrow> nat \<times> string \<times> oid \<times> nat list" where
  "sort_field k d = bson_key (get_or_none d k)"

text \<open>\<^verbatim>\<open>.sort(k, -1)\<close>: descending in the field \<open>k\<close>.\<close>

definition sort_desc :: "string \<Rightarrow> store \<Rightarrow> store" where
  "sort_desc k ds = rev (sort_key (sort_field k) ds)"

text \<open>
  A cursor is lazy: the query runs on the server only when \<^verbatim>\<open>to_list\<close> fetches, and
  it may fail there. \<open>cursor\<close> is the outcome of that run, before skip and limit.
\<close>

type_synonym cursor = "py_exception + store"

text \<open>
  \<^verbatim>\<open>cursor.skip(skip).limit(limit)\<close> followed by \<^verbatim>\<open>to_list(length=limit)\<close>. The
  driver raises \<^verbatim>\<open>ValueError\<close> for a negative \<open>skip\<close> and for a negative
  \<open>length\<close>, and cannot encode an integer beyond 64 bits; all of this happens before
  the server is asked. \<^verbatim>\<open>to_list\<close> with length 0 returns the empty list.
\<close>

definition to_list :: "cursor \<Rightarrow> int \<Rightarrow> int \<Rightarrow> py_exception + store" where
  "to_list c skip limit =
     (if skip < 0 then Inl ValueError
      else if limit < 0 then Inl ValueError
      else if 2 ^ 63 \<le> skip \<or> 2 ^ 63 \<le> limit then Inl OverflowError
      else case c of
             Inl e \<Rightarrow> Inl e
           | Inr ds \<Rightarrow> Inr (take (nat limit) (drop (nat skip) ds)))"

subsection \<open>The \<^verbatim>\<open>$regex\<close> operator\<close>

text \<open>
  \<^verbatim>\<open>{"$regex": q, "$options": "i"}\<close> compiles \<open>q\<close> as a regular expression and holds
  for a string field in which the expression matches somewhere, letters compared
  without case. The model covers the patterns built from ordinary characters, \<^verbatim>\<open>.\<close>
  (any character but a line feed) and a postfix \<^verbatim>\<open>*\<close> on one of these. Two kinds of
  pattern the store rejects are modelled as well: one that starts with \<^verbatim>\<open>*\<close>, and
  one with an opening parenthesis that no later syntax can close. Every other pattern is
  \<open>Unmodelled\<close>: the model says nothing about it.
\<close>

datatype atom = Lit char | AnyChar

datatype item = One atom | Star atom

datatype pattern = Compiled "item list" | Invalid | Unmodelled

definition rx_special :: "char \<Rightarrow> bool" where
  "rx_special c = (c \<in> set (CHR 0x5C # ''^$.[]|()?*+{}''))"

definition atom_of :: "char \<Rightarrow> atom" where
  "atom_of c = (if c = CHR ''.'' then AnyChar else Lit c)"

fun rx_items :: "string \<Rightarrow> item list option" where
  "rx_items [] = Some []"
| "rx_items (c # cs) =
     (if rx_special c \<and> c \<noteq> CHR ''.'' then None
      else case cs of
             [] \<Rightarrow> Some [One (atom_of c)]
           | c' # rest \<Rightarrow>
               if c' = CHR ''*'' then map_option (Cons (Star (atom_of c))) (rx_items rest)
               else map_option (Cons (One (atom_of c))) (rx_items cs))"

definition rx_compile :: "string \<Rightarrow> pattern" where
  "rx_compile q =
     (if q \<noteq> [] \<and> hd q = CHR ''*'' then Invalid
      else if CHR ''('' \<in> set q \<and> CHR '')'' \<notin> set q \<and> CHR 0x5C \<notin> set q \<and> CHR ''['' \<notin> set q
      then Invalid
      else case rx_items q of None \<Rightarrow> Unmodelled | Some p \<Rightarrow> Compiled p)"

definition lower :: "char \<Rightarrow> char" where
  "lower c =
     (case map_of (zip ''ABCDEFGHIJKLMNOPQRSTUVWXYZ'' ''abcdefghijklmnopqrstuvwxyz'') c of
        None \<Rightarrow> c
      | Some l \<Rightarrow> l)"

fun atom_ok :: "atom \<Rightarrow> char \<Rightarrow> bool" where
  "atom_ok (Lit c) x = (lower c = lower x)"
| "atom_ok AnyChar x = (x \<noteq> CHR 0x0A)"

fun match_here :: "item list \<Rightarrow> string \<Rightarrow> bool" where
  "match_here [] s = True"
| "match_here (One a # p) [] = False"
| "match_here (One a # p) (x # s) = (atom_ok a x \<and> match_here p s)"
| "match_here (Star a # p) [] = match_here p []"
| "match_here (Star a # p) (x # s) =
     (match_here p (x # s) \<or> (atom_ok a x \<and> match_here (Star a # p) s))"

fun rx_search :: "item list \<Rightarrow> string \<Rightarrow> bool" where
  "rx_search p [] = match_here p []"
| "rx_search p (x # s) = (match_here p (x # s) \<or> rx_search p s)"

definition regex_field :: "item list \<Rightarrow> string \<Rightarrow> document \<Rightarrow> bool" where
  "regex_field p k d = (case get_or_none d k of BStr s \<Rightarrow> rx_search p s | _ \<Rightarrow> False)"

subsection \<open>Aggregation\<close>

text \<open>
  The pipeline \<^verbatim>\<open>[{"$group": {"_id": "$k", "count": {"$sum": 1}}}]\<close>: one result per
  distinct value of the field \<open>k\<close> (a missing field counts as null) with the number of
  documents that carry it. A result \<^verbatim>\<open>{"_id": g, "count": n}\<close> is the pair \<open>(g, n)\<close>.
\<close>

fun group_add :: "(bson \<times> nat) list \<Rightarrow> bson \<Rightarrow> (bson \<times> nat) list" where
  "group_add [] g = [(g, 1)]"
| "group_add ((g', n) # r) g = (if g' = g then (g', n + 1) # r else (g', n) # group_add r g)"

definition aggregate_group :: "store \<Rightarrow> string \<Rightarrow> (bson \<times> nat) list" where
  "aggregate_group s k = fold (\<lambda>d acc. group_add acc (get_or_none d k)) s []"

section \<open>Request and response models\<close>

record JobUpdate =
  title :: "string option"
  company :: "string option"
  location :: "string option"
  status :: "string option"
  "notes" :: "string option"

record JobBase =
  title :: "string option"
  company :: "string option"
  url :: "string option"
  platform :: "string option"
  location :: "string option"
  description :: "string option"
  status :: string
  "notes" :: "string option"
  date_saved :: "datetime option"

text \<open>\<^verbatim>\<open>JobCreate\<close> adds nothing to \<^verbatim>\<open>JobBase\<close>.\<close>

type_synonym JobCreate = JobBase

definition opt_str :: "string option \<Rightarrow> bson" where
  "opt_str x = (case x of None \<Rightarrow> BNull | Some s \<Rightarrow> BStr s)"

definition opt_date :: "datetime option \<Rightarrow> bson" where
  "opt_date x = (case x of None \<Rightarrow> BNull | Some t \<Rightarrow> BDate t)"

text \<open>\<^verbatim>\<open>job.dict()\<close>: every field of the model, in declaration order.\<close>

definition JobBase_dict :: "JobBase \<Rightarrow> document" where
  "JobBase_dict j =
     [(''title'', opt_str (JobBase.title j)),
      (''company'', opt_str (JobBase.company j)),
      (''url'', opt_str (JobBase.url j)),
      (''platform'', opt_str (JobBase.platform j)),
      (''location'', opt_str (JobBase.location j)),
      (''description'', opt_str (JobBase.description j)),
      (''status'', BStr (JobBase.status j)),
      (''notes'', opt_str (JobBase.notes j)),
      (''date_saved'', opt_date (JobBase.date_saved j))]"

definition JobUpdate_dict :: "JobUpdate \<Rightarrow> document" where
  "JobUpdate_dict u =
     [(''title'', opt_str (JobUpdate.title u)),
      (''company'', opt_str (JobUpdate.company u)),
      (''location'', opt_str (JobUpdate.location u)),
      (''status'', opt_str (JobUpdate.status u)),
      (''notes'', opt_str (JobUpdate.notes u))]"

record summary =
  total_jobs :: nat
  status_breakdown :: "(bson \<times> nat) list"
  platforms :: "(bson \<times> nat) list"

section \<open>The request handlers\<close>

text \<open>
  A handler takes the collection and its arguments; a handler that writes returns the
  collection as it leaves it. \<^verbatim>\<open>except Exception as e: raise HTTPException(500,
  str(e))\<close> is \<open>server_error\<close>.
\<close>

definition server_error :: "py_exception \<Rightarrow> http_error" where
  "server_error e = HTTPException 500 (StrOf e)"

text \<open>\<^verbatim>\<open>[job_helper(job) for job in jobs]\<close>\<close>

fun map_job_helper :: "document list \<Rightarrow> py_exception + document list" where
  "map_job_helper [] = Inr []"
| "map_job_helper (j # js) =
     and_then (job_helper j) (\<lambda>r. and_then (map_job_helper js) (\<lambda>rs. Inr (r # rs)))"

text \<open>
  \<^verbatim>\<open>job_helper(job)\<close> on the result of \<^verbatim>\<open>find_one\<close>: subscripting \<^verbatim>\<open>None\<close> raises
  \<^verbatim>\<open>TypeError\<close>.
\<close>

definition helper_response :: "document option \<Rightarrow> http_error + document" where
  "helper_response j =
     (case j of
        None \<Rightarrow> Inl (server_error TypeError)
      | Some job \<Rightarrow> (case job_helper job of Inl e \<Rightarrow> Inl (server_error e) | Inr r \<Rightarrow> Inr r))"

text \<open>\<^verbatim>\<open>if existing_job:\<close> and \<^verbatim>\<open>if not job:\<close> test the result of \<^verbatim>\<open>find_one\<close>.\<close>

definition found :: "document option \<Rightarrow> bool" where
  "found j = (case j of None \<Rightarrow> False | Some job \<Rightarrow> job \<noteq> [])"

definition create_job :: "store \<Rightarrow> JobCreate \<Rightarrow> datetime \<Rightarrow> oid \<Rightarrow> (http_error + document) \<times> store" where
  "create_job s job now new_id =
     (if found (find_one s [(''url'', opt_str (JobBase.url job))])
      then (Inl (HTTPException 400 (Msg ''Job already exists'')), s)
      else
        (let job_dict = dict_set (JobBase_dict job) ''date_saved'' (BDate now)
         in case insert_one s job_dict new_id of
              Inl e \<Rightarrow> (Inl (server_error e), s)
            | Inr (inserted_id, s') \<Rightarrow>
                (helper_response (find_one s' [(''_id'', BOid inserted_id)]), s')))"

text \<open>
  The end of \<^verbatim>\<open>get_jobs\<close> and \<^verbatim>\<open>search_jobs\<close>: the list of \<^verbatim>\<open>job_helper\<close> results,
  or the error 500 for whatever was raised.
\<close>

definition list_response :: "py_exception + store \<Rightarrow> http_error + document list" where
  "list_response r =
     (case r of
        Inl e \<Rightarrow> Inl (server_error e)
      | Inr jobs \<Rightarrow>
          (case map_job_helper jobs of Inl e \<Rightarrow> Inl (server_error e) | Inr rs \<Rightarrow> Inr rs))"

text \<open>
  \<open>filter_query\<close> of \<^verbatim>\<open>get_jobs\<close>: a query parameter enters it when it is truthy
  (\<^verbatim>\<open>if status:\<close>). The parameters \<^verbatim>\<open>status\<close> and \<^verbatim>\<open>platform\<close> are \<open>status_q\<close> and
  \<open>platform_q\<close> here.
\<close>

definition add_filter :: "document \<Rightarrow> string \<Rightarrow> string option \<Rightarrow> document" where
  "add_filter q k p = (if truthy (opt_str p) then dict_set q k (opt_str p) else q)"

definition get_jobs :: "store \<Rightarrow> string option \<Rightarrow> string option \<Rightarrow> int \<Rightarrow> int \<Rightarrow> http_error + document list" where
  "get_jobs s status_q platform_q limit skip =
     (let filter_query = add_filter (add_filter [] ''status'' status_q) ''platform'' platform_q;
          cursor = Inr (sort_desc ''date_saved'' (filter (matches filter_query) s))
      in list_response (to_list cursor skip limit))"

text \<open>
  \<^verbatim>\<open>{"_id": ObjectId(job_id)}\<close>: the filter holds the ObjectId the constructor built. A
  12-byte one is the identifier a document may carry. An ObjectId of fewer bytes is
  compared as a value of its own here; how the driver puts such a value on the wire is
  not part of this program, and the statements about lookups below are made for 12-byte
  identifiers.
\<close>

definition get_job :: "store \<Rightarrow> string \<Rightarrow> http_error + document" where
  "get_job s job_id =
     (if \<not> is_valid job_id then Inl (HTTPException 400 (Msg ''Invalid job ID format''))
      else case ObjectId job_id of
             Inl e \<Rightarrow> Inl (server_error e)
           | Inr i \<Rightarrow>
               (let job = find_one s [(''_id'', i)]
                in if \<not> found job then Inl (HTTPException 404 (Msg ''Job not found''))
                   else helper_response job))"

definition update_job :: "store \<Rightarrow> string \<Rightarrow> JobUpdate \<Rightarrow> (http_error + document) \<times> store" where
  "update_job s job_id job_update =
     (if \<not> is_valid job_id then (Inl (HTTPException 400 (Msg ''Invalid job ID format'')), s)
      else
        (let update_data = filter (\<lambda>(k, v). v \<noteq> BNull) (JobUpdate_dict job_update)
         in if update_data = [] then (Inl (HTTPException 400 (Msg ''No valid fields to update'')), s)
            else case ObjectId job_id of
                   Inl e \<Rightarrow> (Inl (server_error e), s)
                 | Inr i \<Rightarrow>
                     (case update_one s [(''_id'', i)] update_data of
                        (matched_count, s') \<Rightarrow>
                          if matched_count = 0
                          then (Inl (HTTPException 404 (Msg ''Job not found'')), s')
                          else (helper_response (find_one s' [(''_id'', i)]), s'))))"

definition delete_job :: "store \<Rightarrow> string \<Rightarrow> (http_error + string) \<times> store" where
  "delete_job s job_id =
     (if \<not> is_valid job_id then (Inl (HTTPException 400 (Msg ''Invalid job ID format'')), s)
      else case ObjectId job_id of
             Inl e \<Rightarrow> (Inl (server_error e), s)
           | Inr i \<Rightarrow>
               (case delete_one s [(''_id'', i)] of
                  (deleted_count, s') \<Rightarrow>
                    if deleted_count = 0
                    then (Inl (HTTPException 404 (Msg ''Job not found'')), s')
                    else (Inr ''Job deleted successfully'', s')))"

text \<open>
  \<^verbatim>\<open>{stat["_id"]: stat["count"] for stat in stats}\<close>: a later entry with the same key
  replaces an earlier one.
\<close>

definition dict_of_stats :: "(bson \<times> nat) list \<Rightarrow> (bson \<times> nat) list" where
  "dict_of_stats stats = fold (\<lambda>(g, n) m. dict_set m g n) stats []"

definition get_platform_stats :: "store \<Rightarrow> (bson \<times> nat) list" where
  "get_platform_stats s = dict_of_stats (aggregate_group s ''platform'')"

definition get_jobs_summary :: "store \<Rightarrow> http_error + summary" where
  "get_jobs_summary s =
     (let stats = aggregate_group s ''status'';
          total = count_documents s [];
          status_counts = dict_of_stats stats
      in Inr \<lparr>total_jobs = total, status_breakdown = status_counts,
               platforms = get_platform_stats s\<rparr>)"

text \<open>
  \<^verbatim>\<open>search_jobs\<close>: the query string goes into \<^verbatim>\<open>$regex\<close> as it is. The result is
  \<open>None\<close> exactly when the pattern is outside the modelled part of the regular
  expression language.
\<close>

definition search_jobs :: "store \<Rightarrow> string \<Rightarrow> int \<Rightarrow> (http_error + document list) option" where
  "search_jobs s query limit =
     (case rx_compile query of
        Unmodelled \<Rightarrow> None
      | Invalid \<Rightarrow> Some (list_response (to_list (Inl OperationFailure) 0 limit))
      | Compiled p \<Rightarrow>
          (let search_filter = (\<lambda>d. regex_field p ''title'' d \<or> regex_field p ''company'' d);
               cursor = Inr (sort_desc ''date_saved'' (filter search_filter s))
           in Some (list_response (to_list cursor 0 limit))))"

text \<open>
  The parameters \<^verbatim>\<open>limit\<close> and \<^verbatim>\<open>skip\<close> have defaults in the signatures
  (\<^verbatim>\<open>limit: int = 50, skip: int = 0\<close> for the list, \<^verbatim>\<open>limit: int = 20\<close> for the
  search): a request that leaves one out calls the handler with the default.
\<close>

definition get_jobs_request ::
  "store \<Rightarrow> string option \<Rightarrow> string option \<Rightarrow> int option \<Rightarrow> int option
     \<Rightarrow> http_error + document list" where
  "get_jobs_request s status_q platform_q limit_q skip_q =
     get_jobs s status_q platform_q
       (case limit_q of None \<Rightarrow> 50 | Some l \<Rightarrow> l) (case skip_q of None \<Rightarrow> 0 | Some k \<Rightarrow> k)"

definition search_jobs_request ::
  "store \<Rightarrow> string \<Rightarrow> int option \<Rightarrow> (http_error + document list) option" where
  "search_jobs_request s query limit_q =
     search_jobs s query (case limit_q of None \<Rightarrow> 20 | Some l \<Rightarrow> l)"

section \<open>Documents the handlers write\<close>

text \<open>
  A document written by \<^verbatim>\<open>create_job\<close> carries an ObjectId under \<^verbatim>\<open>_id\<close>, every key
  of \<^verbatim>\<open>JobBase\<close>, and a date (or null) under \<^verbatim>\<open>date_saved\<close>. \<open>wf_doc\<close> asks for the
  part of this that \<^verbatim>\<open>job_helper\<close> reads with a subscript.
\<close>

definition wf_doc :: "document \<Rightarrow> bool" where
  "wf_doc d =
     ((case dict_get d ''_id'' of Some (BOid x) \<Rightarrow> True | _ \<Rightarrow> False)
      \<and> list_all (\<lambda>k. dict_get d k \<noteq> None) [''title'', ''company'', ''url'', ''platform'', ''status'']
      \<and> (case get_or_none d ''date_saved'' of BNull \<Rightarrow> True | BDate t \<Rightarrow> True | _ \<Rightarrow> False))"

text \<open>The store keeps \<^verbatim>\<open>_id\<close> unique.\<close>

definition wf_store :: "store \<Rightarrow> bool" where
  "wf_store s = (list_all wf_doc s \<and> distinct (map (\<lambda>d. get_or_none d ''_id'') s))"

section \<open>The specification's wording, for comparison\<close>

text \<open>
  Search as the specification words it: \<open>q\<close> occurs in \<open>s\<close> as a substring, letters
  compared without case.
\<close>

fun icontains :: "string \<Rightarrow> string \<Rightarrow> bool" where
  "icontains q [] = (q = [])"
| "icontains q (x # s) = (map lower q = take (length q) (map lower (x # s)) \<or> icontains q s)"

definition substring_match :: "string \<Rightarrow> document \<Rightarrow> bool" where
  "substring_match q d =
     ((case get_or_none d ''title'' of BStr t \<Rightarrow> icontains q t | _ \<Rightarrow> False)
      \<or> (case get_or_none d ''company'' of BStr c \<Rightarrow> icontains q c | _ \<Rightarrow> False))"

text \<open>
  The list filter as the specification words it: a filter applies whenever it is
  supplied.
\<close>

definition supplied_filter :: "string option \<Rightarrow> string option \<Rightarrow> document \<Rightarrow> bool" where
  "supplied_filter status_q platform_q d =
     ((case status_q of None \<Rightarrow> True | Some v \<Rightarrow> get_or_none d ''status'' = BStr v)
      \<and> (case platform_q of None \<Rightarrow> True | Some v \<Rightarrow> get_or_none d ''platform'' = BStr v))"

text \<open>The list filter of the code: a filter applies when it is supplied and not empty.\<close>

definition effective_filter :: "string option \<Rightarrow> string option \<Rightarrow> document \<Rightarrow> bool" where
  "effective_filter status_q platform_q d =
     ((case status_q of None \<Rightarrow> True | Some v \<Rightarrow> v = [] \<or> get_or_none d ''status'' = BStr v)
      \<and> (case platform_q of None \<Rightarrow> True | Some v \<Rightarrow> v = [] \<or> get_or_none d ''platform'' = BStr v))"

text \<open>
  The adapter's \<open>toResponse\<close> as the specification words it: the identifier as a
  string, the timestamp in ISO-8601 or null, and null for every field that is missing.
\<close>

definition toResponse :: "document \<Rightarrow> document" where
  "toResponse job =
     [(''id'', BStr (py_str (get_or_none job ''_id''))),
      (''title'', get_or_none job ''title''),
      (''company'', get_or_none job ''company''),
      (''location'', get_or_none job ''location''),
      (''url'', get_or_none job ''url''),
      (''platform'', get_or_none job ''platform''),
      (''description'', get_or_none job ''description''),
      (''status'', get_or_none job ''status''),
      (''notes'', get_or_none job ''notes''),
      (''date_saved'', case get_or_none job ''date_saved'' of
                         BDate t \<Rightarrow> BStr (isoformat t)
                       | _ \<Rightarrow> BNull)]"

section \<open>Identifiers\<close>

lemma length_to_digits: "length (to_digits b w n) = w"
  by (induction b w n rule: to_digits.induct) auto

lemma digit_char_all:
  "list_all (\<lambda>n. hexval (digit_char n) = Some n \<and> \<not> is_space (digit_char n)
                 \<and> lower (digit_char n) = digit_char n) [0..<16]"
  by code_simp

lemma digit_char_props:
  assumes "n < 16"
  shows "hexval (digit_char n) = Some n" "\<not> is_space (digit_char n)"
    "lower (digit_char n) = digit_char n"
proof -
  from assms have "n \<in> set [0..<16]" by simp
  with digit_char_all have "hexval (digit_char n) = Some n \<and> \<not> is_space (digit_char n)
                 \<and> lower (digit_char n) = digit_char n"
    unfolding list_all_iff by (rule bspec)
  then show "hexval (digit_char n) = Some n" "\<not> is_space (digit_char n)"
    "lower (digit_char n) = digit_char n" by simp_all
qed

lemma hex_chars_ok:
  "list_all (\<lambda>c. \<exists>v<16. hexval c = Some v \<and> lower c = digit_char v \<and> \<not> is_space c)
     ''0123456789abcdefABCDEF''"
  by (simp add: hexval_def lower_def digit_char_def is_space_def)

lemma hex_ranges:
  "list_all (\<lambda>k. char_of k \<in> set ''0123456789abcdefABCDEF'') [48..<58::nat]"
  "list_all (\<lambda>k. char_of k \<in> set ''0123456789abcdefABCDEF'') [97..<103::nat]"
  "list_all (\<lambda>k. char_of k \<in> set ''0123456789abcdefABCDEF'') [65..<71::nat]"
  by code_simp+

lemma hexval_Some_props:
  assumes "hexval c = Some v"
  shows "v < 16 \<and> lower c = digit_char v \<and> \<not> is_space c"
proof -
  let ?k = "of_char c :: nat"
  from assms have "?k \<in> {48..<58} \<or> ?k \<in> {97..<103} \<or> ?k \<in> {65..<71}"
    by (auto simp: hexval_def Let_def split: if_splits)
  then have "?k \<in> set [48..<58] \<or> ?k \<in> set [97..<103] \<or> ?k \<in> set [65..<71]"
    by (simp only: set_upt)
  with hex_ranges have "char_of ?k \<in> set ''0123456789abcdefABCDEF''"
    unfolding list_all_iff by blast
  then have "c \<in> set ''0123456789abcdefABCDEF''" by (simp only: char_of_char)
  with hex_chars_ok
  have "\<exists>v<16. hexval c = Some v \<and> lower c = digit_char v \<and> \<not> is_space c"
    unfolding list_all_iff by (rule bspec)
  with assms show ?thesis by auto
qed

lemma upper_table:
  "list_all (\<lambda>(u, l). l \<in> set ''0123456789abcdef'' \<longrightarrow> hexval u \<noteq> None)
     (zip ''ABCDEFGHIJKLMNOPQRSTUVWXYZ'' ''abcdefghijklmnopqrstuvwxyz'')"
  by (simp add: hexval_def)

lemma digit_char_in: "v < 16 \<Longrightarrow> digit_char v \<in> set ''0123456789abcdef''"
  unfolding digit_char_def by (rule nth_mem) simp

lemma lower_hex_digit:
  assumes "lower c = digit_char v" "v < 16"
  shows "hexval c \<noteq> None"
proof (cases "map_of (zip ''ABCDEFGHIJKLMNOPQRSTUVWXYZ'' ''abcdefghijklmnopqrstuvwxyz'') c")
  case None
  with assms(1) have "c = digit_char v" by (simp add: lower_def)
  with digit_char_props(1) [OF assms(2)] show ?thesis by simp
next
  case (Some l)
  then have m: "(c, l) \<in> set (zip ''ABCDEFGHIJKLMNOPQRSTUVWXYZ'' ''abcdefghijklmnopqrstuvwxyz'')"
    by (rule map_of_SomeD)
  from Some assms(1) have "l = digit_char v" by (simp add: lower_def)
  with digit_char_in [OF assms(2)] have "l \<in> set ''0123456789abcdef''" by simp
  with upper_table m show ?thesis
    unfolding list_all_iff by blast
qed


lemma fromhex_space: "is_space c \<Longrightarrow> fromhex (c # cs) = fromhex cs"
  by (cases cs) simp_all

lemma fromhex_pair:
  assumes "hexval c = Some hi" "hexval c' = Some lo"
  shows "fromhex (c # c' # cs) = map_option (Cons (16 * hi + lo)) (fromhex cs)"
  using assms hexval_Some_props [OF assms(1)] by simp

lemma fromhex_hex_head:
  assumes "fromhex (c # cs) = Some bs" "\<not> is_space c"
  shows "\<exists>hi lo c' cs' bs'. cs = c' # cs' \<and> hexval c = Some hi \<and> hexval c' = Some lo
            \<and> fromhex cs' = Some bs' \<and> bs = (16 * hi + lo) # bs'"
proof (cases cs)
  case Nil
  with assms show ?thesis by simp
next
  case (Cons c' cs')
  with assms show ?thesis
    by (auto split: option.splits)
qed

lemma fromhex_append:
  "fromhex xs = Some bs \<Longrightarrow> fromhex (xs @ ys) = map_option ((@) bs) (fromhex ys)"
proof (induction xs arbitrary: bs rule: fromhex.induct)
  case 1
  then show ?case by (simp add: option.map_ident)
next
  case (2 c)
  then have sp: "is_space c" and b: "bs = []" by (simp_all split: if_splits)
  then show ?case by (simp add: fromhex_space option.map_ident)
next
  case (3 c c' cs)
  show ?case
  proof (cases "is_space c")
    case True
    with "3.prems" have "fromhex (c' # cs) = Some bs" by simp
    from "3.IH"(1) [OF True this] True show ?thesis by (simp add: fromhex_space)
  next
    case False
    from fromhex_hex_head [OF "3.prems" False] obtain hi lo bs' where
      h: "hexval c = Some hi" "hexval c' = Some lo" "fromhex cs = Some bs'"
         "bs = (16 * hi + lo) # bs'"
      by auto
    from "3.IH"(2) [OF False h(1) h(2) h(3)]
    have "fromhex (cs @ ys) = map_option ((@) bs') (fromhex ys)" .
    with h show ?thesis
      by (simp add: fromhex_pair option.map_comp comp_def del: fromhex.simps)
  qed
qed

lemma length_to_bytes: "length (to_bytes k n) = k"
  by (induction k arbitrary: n) simp_all

lemma bytes_value_snoc: "bytes_value (bs @ [b]) = 256 * bytes_value bs + b"
  by (simp add: bytes_value_def)

lemma bytes_value_to_bytes: "bytes_value (to_bytes k n) = n mod 256 ^ k"
proof (induction k arbitrary: n)
  case 0
  then show ?case by (simp add: bytes_value_def)
next
  case (Suc k)
  have "n mod 256 ^ Suc k = 256 * ((n div 256) mod 256 ^ k) + n mod 256"
    by (simp add: mod_mult2_eq)
  with Suc show ?case by (simp add: bytes_value_snoc)
qed

lemma fromhex_two_digits:
  "fromhex [digit_char (n div 16 mod 16), digit_char (n mod 16)] = Some [n mod 256]"
proof -
  have a: "n div 16 mod 16 < 16" "n mod 16 < 16" by simp_all
  have "16 * (n div 16 mod 16) + n mod 16 = n mod 256"
    using mod_mult2_eq [of n 16 16] by simp
  with fromhex_pair [OF digit_char_props(1) [OF a(1)] digit_char_props(1) [OF a(2)], of "[]"]
  show ?thesis by simp
qed

lemma fromhex_to_digits: "fromhex (to_digits 16 (2 * k) n) = Some (to_bytes k n)"
proof (induction k arbitrary: n)
  case 0
  then show ?case by simp
next
  case (Suc k)
  have "n div 16 div 16 = n div 256"
    using div_mult2_eq [of n 16 16] by simp
  then have d: "to_digits 16 (2 * Suc k) n
      = to_digits 16 (2 * k) (n div 256) @ [digit_char (n div 16 mod 16), digit_char (n mod 16)]"
    by simp
  show ?case
    unfolding d by (simp add: fromhex_append [OF Suc.IH] fromhex_two_digits del: fromhex.simps)
qed

text \<open>The string of an ObjectId is a valid identifier and decodes to the same ObjectId.\<close>

lemma ObjectId_str_oid: "ObjectId (str_oid x) = Inr (BOid x)"
proof -
  have "unat x < 2 ^ 96" using unsigned_less [of x] by simp
  then have "unat x < 256 ^ 12" by simp
  then have m: "unat x mod 256 ^ 12 = unat x" by (rule mod_less)
  have "fromhex (to_digits 16 (2 * 12) (unat x)) = Some (to_bytes 12 (unat x))"
    by (rule fromhex_to_digits)
  then have f: "fromhex (to_digits 16 24 (unat x)) = Some (to_bytes 12 (unat x))" by simp
  have "bytes_value (to_bytes 12 (unat x)) = unat x"
    using bytes_value_to_bytes [of 12 "unat x"] m by simp
  with f show ?thesis
    by (simp add: ObjectId_def str_oid_def length_to_digits length_to_bytes)
qed

lemma fromhex_length: "fromhex s = Some bs \<Longrightarrow> 2 * length bs \<le> length s"
proof (induction s arbitrary: bs rule: fromhex.induct)
  case 1
  then show ?case by simp
next
  case (2 c)
  then show ?case by (simp split: if_splits)
next
  case (3 c c' cs)
  show ?case
  proof (cases "is_space c")
    case True
    with "3.prems" have "fromhex (c' # cs) = Some bs" by simp
    from "3.IH"(1) [OF True this] show ?thesis by simp
  next
    case False
    from fromhex_hex_head [OF "3.prems" False] obtain hi lo bs' where
      h: "hexval c = Some hi" "hexval c' = Some lo" "fromhex cs = Some bs'"
         "bs = (16 * hi + lo) # bs'"
      by auto
    from "3.IH"(2) [OF False h(1) h(2) h(3)] h(4) show ?thesis by simp
  qed
qed

lemma fromhex_no_space:
  "fromhex s = Some bs \<Longrightarrow> length s = 2 * length bs \<Longrightarrow>
     map lower s = hex_of bs \<and> (\<forall>b\<in>set bs. b < 256)"
proof (induction s arbitrary: bs rule: fromhex.induct)
  case 1
  then show ?case by (simp add: hex_of_def)
next
  case (2 c)
  then show ?case by (simp split: if_splits)
next
  case (3 c c' cs)
  show ?case
  proof (cases "is_space c")
    case True
    with "3.prems"(1) have "fromhex (c' # cs) = Some bs" by simp
    from fromhex_length [OF this] "3.prems"(2) show ?thesis by simp
  next
    case False
    from fromhex_hex_head [OF "3.prems"(1) False] obtain hi lo bs' where
      h: "hexval c = Some hi" "hexval c' = Some lo" "fromhex cs = Some bs'"
         "bs = (16 * hi + lo) # bs'"
      by auto
    from h(4) "3.prems"(2) have "length cs = 2 * length bs'" by simp
    from "3.IH"(2) [OF False h(1) h(2) h(3) this]
    have ih: "map lower cs = hex_of bs'" "\<forall>b\<in>set bs'. b < 256" by simp_all
    from hexval_Some_props [OF h(1)] hexval_Some_props [OF h(2)]
    have p: "hi < 16" "lo < 16" "lower c = digit_char hi" "lower c' = digit_char lo"
      by simp_all
    from p(1,2) have "(16 * hi + lo) div 16 = hi" "(16 * hi + lo) mod 16 = lo"
      "16 * hi + lo < 256" by simp_all
    with ih p(3,4) h(4) show ?thesis by (simp add: hex_of_def)
  qed
qed

lemma hex_of_snoc: "hex_of (bs @ [b]) = hex_of bs @ [digit_char (b div 16), digit_char (b mod 16)]"
  by (simp add: hex_of_def)

lemma byte_split:
  fixes v b :: nat
  assumes "b < 256"
  shows "(256 * v + b) div 16 div 16 = v" "(256 * v + b) div 16 mod 16 = b div 16"
    "(256 * v + b) mod 16 = b mod 16"
proof -
  have e: "256 * v + b = 16 * (16 * v) + b" by simp
  have d: "(256 * v + b) div 16 = 16 * v + b div 16"
    unfolding e by (simp only: div_mult_self4)
  from assms have s: "b div 16 < 16" by simp
  show "(256 * v + b) div 16 div 16 = v" unfolding d using s by simp
  show "(256 * v + b) div 16 mod 16 = b div 16" unfolding d using s by simp
  show "(256 * v + b) mod 16 = b mod 16" unfolding e by (simp only: mod_mult_self4)
qed

lemma hex_of_to_digits:
  "\<forall>b\<in>set bs. b < 256 \<Longrightarrow> hex_of bs = to_digits 16 (2 * length bs) (bytes_value bs)"
proof (induction bs rule: rev_induct)
  case Nil
  then show ?case by (simp add: hex_of_def)
next
  case (snoc b bs)
  then have b: "b < 256" by simp
  from snoc have ih: "hex_of bs = to_digits 16 (2 * length bs) (bytes_value bs)" by simp
  have "to_digits 16 (2 * length (bs @ [b])) (bytes_value (bs @ [b]))
      = to_digits 16 (Suc (Suc (2 * length bs))) (256 * bytes_value bs + b)"
    by (simp add: bytes_value_snoc)
  also have "\<dots> = to_digits 16 (2 * length bs) (bytes_value bs)
       @ [digit_char (b div 16), digit_char (b mod 16)]"
    by (simp only: to_digits.simps byte_split [OF b] append_assoc append_Cons append_Nil)
  finally show ?case by (simp only: hex_of_snoc ih)
qed

lemma to_digits_mod: "to_digits 16 w (n mod 16 ^ w) = to_digits 16 w n"
proof (induction w arbitrary: n)
  case 0
  then show ?case by simp
next
  case (Suc w)
  have a: "n mod 16 ^ Suc w div 16 = n div 16 mod 16 ^ w"
    by (simp add: mod_mult2_eq)
  have b: "n mod 16 ^ Suc w mod 16 = n mod 16"
    by (simp add: mod_mod_cancel)
  from Suc [of "n div 16"] show ?case by (simp only: to_digits.simps a b)
qed

lemma set_to_digits: "c \<in> set (to_digits 16 w n) \<Longrightarrow> \<exists>v<16. c = digit_char v"
proof (induction w arbitrary: n)
  case 0
  then show ?case by simp
next
  case (Suc w)
  from Suc.prems have "c \<in> set (to_digits 16 w (n div 16)) \<or> c = digit_char (n mod 16)"
    by auto
  then show ?case
  proof
    assume "c \<in> set (to_digits 16 w (n div 16))"
    then show ?thesis by (rule Suc.IH)
  next
    assume c: "c = digit_char (n mod 16)"
    have "n mod 16 < 16" by simp
    with c show ?thesis by (intro exI [of _ "n mod 16"] conjI)
  qed
qed

lemma fromhex_all_hex:
  "\<forall>c\<in>set s. hexval c \<noteq> None \<Longrightarrow> even (length s) \<Longrightarrow>
     \<exists>bs. fromhex s = Some bs \<and> length s = 2 * length bs"
proof (induction s rule: fromhex.induct)
  case 1
  then show ?case by simp
next
  case (2 c)
  then show ?case by simp
next
  case (3 c c' cs)
  from "3.prems"(1) obtain hi lo where h: "hexval c = Some hi" "hexval c' = Some lo" by auto
  from hexval_Some_props [OF h(1)] have ns: "\<not> is_space c" by simp
  from "3.prems" have "\<forall>c\<in>set cs. hexval c \<noteq> None" "even (length cs)" by simp_all
  from "3.IH"(2) [OF ns h(1) h(2) this] obtain bs where
    "fromhex cs = Some bs" "length cs = 2 * length bs" by auto
  with h show ?case by (simp add: fromhex_pair del: fromhex.simps)
qed

lemma ObjectId_BOid_lower:
  assumes "ObjectId job_id = Inr (BOid x)"
  shows "map lower job_id = str_oid x"
proof -
  from assms obtain bs where f: "fromhex job_id = Some bs" and l: "length job_id = 24"
    and b: "length bs = 12" and x: "x = word_of_nat (bytes_value bs)"
    by (auto simp: ObjectId_def split: if_splits option.splits)
  from l b have "length job_id = 2 * length bs" by simp
  from fromhex_no_space [OF f this] have h: "map lower job_id = hex_of bs"
    and r: "\<forall>b\<in>set bs. b < 256" by simp_all
  have "unat (word_of_nat (bytes_value bs) :: oid) = bytes_value bs mod 2 ^ 96"
    by (simp add: unat_of_nat)
  then have "str_oid x = to_digits 16 24 (bytes_value bs mod 16 ^ 24)"
    by (simp add: str_oid_def x)
  also have "\<dots> = to_digits 16 24 (bytes_value bs)" by (rule to_digits_mod)
  also have "\<dots> = hex_of bs" using hex_of_to_digits [OF r] b by simp
  finally show ?thesis using h by simp
qed

lemma lower_str_oid_ObjectId:
  assumes "map lower job_id = str_oid x"
  shows "ObjectId job_id = Inr (BOid x)"
proof -
  from assms have l: "length job_id = 24"
    using length_map [of lower job_id] by (simp add: str_oid_def length_to_digits)
  have "\<forall>c\<in>set job_id. hexval c \<noteq> None"
  proof
    fix c assume "c \<in> set job_id"
    then have "lower c \<in> set (map lower job_id)" by simp
    with assms have "lower c \<in> set (to_digits 16 24 (unat x))" by (simp add: str_oid_def)
    from set_to_digits [OF this] obtain v where "v < 16" "lower c = digit_char v" by auto
    from lower_hex_digit [OF this(2) this(1)] show "hexval c \<noteq> None" .
  qed
  from fromhex_all_hex [OF this] l obtain bs where
    f: "fromhex job_id = Some bs" and b: "length job_id = 2 * length bs" by auto
  from l b have "length bs = 12" by simp
  with f l have "ObjectId job_id = Inr (BOid (word_of_nat (bytes_value bs)))"
    by (simp add: ObjectId_def)
  moreover from ObjectId_BOid_lower [OF this] assms
  have "str_oid (word_of_nat (bytes_value bs)) = str_oid x" by simp
  then have "ObjectId (str_oid (word_of_nat (bytes_value bs))) = ObjectId (str_oid x)" by simp
  then have "word_of_nat (bytes_value bs) = x" by (simp add: ObjectId_str_oid)
  ultimately show ?thesis by simp
qed

text \<open>
  The strings that denote a 12-byte identifier are its 24 hexadecimal digits in either
  case of the letters.
\<close>

lemma ObjectId_BOid_iff: "ObjectId job_id = Inr (BOid x) \<longleftrightarrow> map lower job_id = str_oid x"
proof
  assume "ObjectId job_id = Inr (BOid x)"
  then show "map lower job_id = str_oid x" by (rule ObjectId_BOid_lower)
next
  assume "map lower job_id = str_oid x"
  then show "ObjectId job_id = Inr (BOid x)" by (rule lower_str_oid_ObjectId)
qed

lemma ObjectId_not_null: "ObjectId job_id \<noteq> Inr BNull"
  by (simp add: ObjectId_def split: option.splits)

lemma is_valid_str_oid: "is_valid (str_oid x)"
  by (simp add: is_valid_def ObjectId_str_oid)

text \<open>The identifier format: 24 characters that \<^verbatim>\<open>bytes.fromhex\<close> decodes.\<close>

lemma is_valid_iff: "is_valid job_id \<longleftrightarrow> length job_id = 24 \<and> fromhex job_id \<noteq> None"
  by (auto simp: is_valid_def ObjectId_def split: option.splits)

lemma is_valid_ObjectId: "is_valid job_id \<Longrightarrow> \<exists>i. ObjectId job_id = Inr i"
  by (cases "ObjectId job_id") (auto simp: is_valid_def)

text \<open>Rules to evaluate the rendering functions and the handlers on given values.\<close>

lemma to_digits_numeral:
  "to_digits b (numeral k) n = to_digits b (pred_numeral k) (n div b) @ [digit_char (n mod b)]"
  by (simp add: numeral_eq_Suc)

lemma to_digits_1: "to_digits b 1 n = [digit_char (n mod b)]"
  by (simp add: One_nat_def del: One_nat_def [symmetric])

lemma to_digits_Suc_0: "to_digits b (Suc 0) n = [digit_char (n mod b)]"
  by simp

lemmas to_digits_eval = to_digits_numeral to_digits_1 to_digits_Suc_0 digit_char_def

lemmas helper_eval =
  job_helper_def and_then_def subscript_def date_saved_entry_def get_or_none_def dict_get_def
  isoformat_def str_oid_def to_digits_eval helper_response_def server_error_def

lemmas store_eval = find_one_def matches_def field_eq_def found_def insert_one_def

section \<open>The response shape\<close>

lemma subscript_present: "dict_get d k \<noteq> None \<Longrightarrow> subscript d k = Inr (get_or_none d k)"
  by (auto simp: subscript_def get_or_none_def)

lemma date_saved_entry_ok:
  assumes "get_or_none d ''date_saved'' = BNull \<or> (\<exists>t. get_or_none d ''date_saved'' = BDate t)"
  shows "date_saved_entry d =
           Inr (case get_or_none d ''date_saved'' of BDate t \<Rightarrow> BStr (isoformat t) | _ \<Rightarrow> BNull)"
  using assms
  by (auto simp: date_saved_entry_def subscript_def get_or_none_def split: option.splits)

lemma job_helper_wf:
  assumes "wf_doc job"
  shows "job_helper job = Inr (toResponse job)"
proof -
  from assms have k: "dict_get job ''_id'' \<noteq> None" "dict_get job ''title'' \<noteq> None"
    "dict_get job ''company'' \<noteq> None" "dict_get job ''url'' \<noteq> None"
    "dict_get job ''platform'' \<noteq> None" "dict_get job ''status'' \<noteq> None"
    by (auto simp: wf_doc_def split: option.splits)
  from assms have "get_or_none job ''date_saved'' = BNull
      \<or> (\<exists>t. get_or_none job ''date_saved'' = BDate t)"
    by (auto simp: wf_doc_def split: bson.splits)
  then show ?thesis
    by (simp add: job_helper_def and_then_def subscript_present k date_saved_entry_ok
        toResponse_def)
qed

section \<open>Looking documents up\<close>

lemma matches_single: "matches [(k, v)] d \<longleftrightarrow> get_or_none d k = v"
  by (simp add: matches_def field_eq_def)

lemma find_one_None_iff: "find_one s q = None \<longleftrightarrow> (\<forall>d\<in>set s. \<not> matches q d)"
  by (auto simp: find_one_def find_None_iff)

lemma find_one_SomeD: "find_one s q = Some d \<Longrightarrow> d \<in> set s \<and> matches q d"
  unfolding find_one_def find_Some_iff by (metis nth_mem)

lemma find_one_unique:
  assumes "d \<in> set s" "matches q d" "\<forall>d'\<in>set s. matches q d' \<longrightarrow> d' = d"
  shows "find_one s q = Some d"
proof (cases "find_one s q")
  case None
  with assms(1,2) show ?thesis by (simp add: find_one_None_iff)
next
  case (Some d')
  from find_one_SomeD [OF Some] assms(3) have "d' = d" by simp
  with Some show ?thesis by simp
qed

lemma wf_store_unique_id:
  assumes "wf_store s" "d \<in> set s" "d' \<in> set s" "get_or_none d ''_id'' = get_or_none d' ''_id''"
  shows "d' = d"
proof -
  from assms(1) have "inj_on (\<lambda>d. get_or_none d ''_id'') (set s)"
    by (simp add: wf_store_def distinct_map)
  from inj_onD [OF this assms(4) assms(2) assms(3)] show ?thesis by simp
qed

lemma wf_doc_nonempty: "wf_doc d \<Longrightarrow> d \<noteq> []"
  by (cases d) (simp_all add: wf_doc_def dict_get_def)

lemma get_or_none_Nil: "get_or_none [] k = BNull"
  by (simp add: get_or_none_def dict_get_def)

lemma is_valid_Inr: "ObjectId job_id = Inr i \<Longrightarrow> is_valid job_id"
  by (simp add: is_valid_def)

lemma find_one_id_found:
  assumes "find_one s [(''_id'', v)] = Some j" "v \<noteq> BNull"
  shows "found (Some j)"
proof -
  from find_one_SomeD [OF assms(1)] have "get_or_none j ''_id'' = v"
    by (simp add: matches_single)
  with assms(2) have "j \<noteq> []" by (auto simp: get_or_none_Nil)
  then show ?thesis by (simp add: found_def)
qed

lemma find_one_find: "find_one s [(k, v)] = find (\<lambda>d. get_or_none d k = v) s"
proof -
  have "matches [(k, v)] = (\<lambda>d. get_or_none d k = v)"
    by (rule ext) (simp add: matches_single)
  then show ?thesis by (simp add: find_one_def)
qed

section \<open>The response of \<^verbatim>\<open>job_helper\<close> (claim C3)\<close>

lemma length_isoformat: "length (isoformat t) = (if microsecond t = 0 then 19 else 26)"
  by (simp add: isoformat_def length_to_digits)

lemma length_str_oid: "length (str_oid x) = 24"
  by (simp add: str_oid_def length_to_digits)

text \<open>
  Claim C3, as far as it fails. A stored document without \<^verbatim>\<open>title\<close> makes
  \<^verbatim>\<open>job_helper\<close> raise \<^verbatim>\<open>KeyError\<close>: the fields \<^verbatim>\<open>_id\<close>, \<^verbatim>\<open>title\<close>, \<^verbatim>\<open>company\<close>,
  \<^verbatim>\<open>url\<close>, \<^verbatim>\<open>platform\<close> and \<^verbatim>\<open>status\<close> are read with a subscript, not with
  \<^verbatim>\<open>get\<close>, so they are not defaulted to null.
\<close>

theorem job_helper_missing_title:
  "job_helper [(''_id'', BOid 1), (''status'', BStr ''saved'')] = Inl (KeyError ''title'')"
  by (simp add: job_helper_def and_then_def subscript_def dict_get_def)

lemma job_helper_KeyError:
  assumes "find (\<lambda>k. dict_get job k = None)
             [''_id'', ''title'', ''company'', ''url'', ''platform'', ''status''] = Some k"
  shows "job_helper job = Inl (KeyError k)"
  using assms
  by (simp add: job_helper_def and_then_def subscript_def split: if_splits option.splits)

text \<open>
  Claim C3, amended. For every stored document that carries an ObjectId under \<^verbatim>\<open>_id\<close>
  and the keys \<^verbatim>\<open>title\<close>, \<^verbatim>\<open>company\<close>, \<^verbatim>\<open>url\<close>, \<^verbatim>\<open>platform\<close> and \<^verbatim>\<open>status\<close> (with
  any value, null included), and whose \<^verbatim>\<open>date_saved\<close> is missing, null or a date,
  \<^verbatim>\<open>job_helper\<close> returns the external shape: the identifier as the 24-digit string of
  the ObjectId, \<^verbatim>\<open>date_saved\<close> in ISO-8601 or null when it is missing, and null for
  each of \<^verbatim>\<open>location\<close>, \<^verbatim>\<open>description\<close> and \<^verbatim>\<open>notes\<close> that is missing. For every
  document that lacks one of \<^verbatim>\<open>_id\<close>, \<^verbatim>\<open>title\<close>, \<^verbatim>\<open>company\<close>, \<^verbatim>\<open>url\<close>,
  \<^verbatim>\<open>platform\<close>, \<^verbatim>\<open>status\<close>, \<^verbatim>\<open>job_helper\<close> raises \<^verbatim>\<open>KeyError\<close> for the first of
  these keys, in this order, that is missing.
\<close>

theorem job_helper_response:
  "(dict_get job ''_id'' = Some (BOid x)
      \<and> list_all (\<lambda>k. dict_get job k \<noteq> None)
           [''title'', ''company'', ''url'', ''platform'', ''status'']
      \<and> (get_or_none job ''date_saved'' = BNull \<or> (\<exists>t. get_or_none job ''date_saved'' = BDate t))
    \<longrightarrow>
      (\<exists>r. job_helper job = Inr r \<and> r = toResponse job
         \<and> dict_get r ''id'' = Some (BStr (str_oid x)) \<and> length (str_oid x) = 24
         \<and> (\<forall>k\<in>set [''title'', ''company'', ''url'', ''platform'', ''status''].
               dict_get r k = dict_get job k)
         \<and> (\<forall>k\<in>set [''location'', ''description'', ''notes''].
               dict_get r k = Some (get_or_none job k)
               \<and> (dict_get job k = None \<longrightarrow> dict_get r k = Some BNull))
         \<and> (dict_get job ''date_saved'' = None \<longrightarrow> dict_get r ''date_saved'' = Some BNull)
         \<and> (\<forall>t. dict_get job ''date_saved'' = Some (BDate t) \<longrightarrow>
               dict_get r ''date_saved'' = Some (BStr (isoformat t)))))
   \<and> (\<forall>k. find (\<lambda>k. dict_get job k = None)
              [''_id'', ''title'', ''company'', ''url'', ''platform'', ''status''] = Some k
          \<longrightarrow> job_helper job = Inl (KeyError k))
   \<and> ((\<exists>k\<in>set [''_id'', ''title'', ''company'', ''url'', ''platform'', ''status''].
          dict_get job k = None)
        \<longrightarrow> (\<exists>k\<in>set [''_id'', ''title'', ''company'', ''url'', ''platform'', ''status''].
               dict_get job k = None \<and> job_helper job = Inl (KeyError k)))"
proof -
  let ?keys = "[''_id'', ''title'', ''company'', ''url'', ''platform'', ''status'']"
  have p1: "dict_get job ''_id'' = Some (BOid x)
      \<and> list_all (\<lambda>k. dict_get job k \<noteq> None)
           [''title'', ''company'', ''url'', ''platform'', ''status'']
      \<and> (get_or_none job ''date_saved'' = BNull \<or> (\<exists>t. get_or_none job ''date_saved'' = BDate t))
    \<longrightarrow>
      (\<exists>r. job_helper job = Inr r \<and> r = toResponse job
         \<and> dict_get r ''id'' = Some (BStr (str_oid x)) \<and> length (str_oid x) = 24
         \<and> (\<forall>k\<in>set [''title'', ''company'', ''url'', ''platform'', ''status''].
               dict_get r k = dict_get job k)
         \<and> (\<forall>k\<in>set [''location'', ''description'', ''notes''].
               dict_get r k = Some (get_or_none job k)
               \<and> (dict_get job k = None \<longrightarrow> dict_get r k = Some BNull))
         \<and> (dict_get job ''date_saved'' = None \<longrightarrow> dict_get r ''date_saved'' = Some BNull)
         \<and> (\<forall>t. dict_get job ''date_saved'' = Some (BDate t) \<longrightarrow>
               dict_get r ''date_saved'' = Some (BStr (isoformat t))))"
  proof
    assume a: "dict_get job ''_id'' = Some (BOid x)
      \<and> list_all (\<lambda>k. dict_get job k \<noteq> None)
           [''title'', ''company'', ''url'', ''platform'', ''status'']
      \<and> (get_or_none job ''date_saved'' = BNull \<or> (\<exists>t. get_or_none job ''date_saved'' = BDate t))"
    then have a1: "dict_get job ''_id'' = Some (BOid x)" by (rule conjunct1)
    from a have a2: "list_all (\<lambda>k. dict_get job k \<noteq> None)
           [''title'', ''company'', ''url'', ''platform'', ''status'']"
      by (elim conjE)
    from a have "wf_doc job"
      by (auto simp: wf_doc_def)
    then have h: "job_helper job = Inr (toResponse job)" by (rule job_helper_wf)
    have i: "dict_get (toResponse job) ''id'' = Some (BStr (str_oid x))"
      using a1 by (simp add: toResponse_def dict_get_def get_or_none_def)
    have k: "\<forall>k\<in>set [''title'', ''company'', ''url'', ''platform'', ''status''].
             dict_get (toResponse job) k = dict_get job k"
      using a2 by (auto simp: toResponse_def dict_get_def get_or_none_def)
    have l: "\<forall>k\<in>set [''location'', ''description'', ''notes''].
             dict_get (toResponse job) k = Some (get_or_none job k)
             \<and> (dict_get job k = None \<longrightarrow> dict_get (toResponse job) k = Some BNull)"
      by (simp add: toResponse_def dict_get_def get_or_none_def)
    have n: "dict_get job ''date_saved'' = None \<longrightarrow>
             dict_get (toResponse job) ''date_saved'' = Some BNull"
      by (simp add: toResponse_def dict_get_def get_or_none_def)
    have d: "\<forall>t. dict_get job ''date_saved'' = Some (BDate t) \<longrightarrow>
             dict_get (toResponse job) ''date_saved'' = Some (BStr (isoformat t))"
      by (simp add: toResponse_def dict_get_def get_or_none_def)
    show "\<exists>r. job_helper job = Inr r \<and> r = toResponse job
         \<and> dict_get r ''id'' = Some (BStr (str_oid x)) \<and> length (str_oid x) = 24
         \<and> (\<forall>k\<in>set [''title'', ''company'', ''url'', ''platform'', ''status''].
               dict_get r k = dict_get job k)
         \<and> (\<forall>k\<in>set [''location'', ''description'', ''notes''].
               dict_get r k = Some (get_or_none job k)
               \<and> (dict_get job k = None \<longrightarrow> dict_get r k = Some BNull))
         \<and> (dict_get job ''date_saved'' = None \<longrightarrow> dict_get r ''date_saved'' = Some BNull)
         \<and> (\<forall>t. dict_get job ''date_saved'' = Some (BDate t) \<longrightarrow>
               dict_get r ''date_saved'' = Some (BStr (isoformat t)))"
      by (intro exI [of _ "toResponse job"] conjI h refl i k l n d length_str_oid)
  qed
  have p2: "\<forall>k. find (\<lambda>k. dict_get job k = None) ?keys = Some k
          \<longrightarrow> job_helper job = Inl (KeyError k)"
    by (intro allI impI) (rule job_helper_KeyError)
  have p3: "(\<exists>k\<in>set ?keys. dict_get job k = None)
        \<longrightarrow> (\<exists>k\<in>set ?keys. dict_get job k = None \<and> job_helper job = Inl (KeyError k))"
  proof
    assume "\<exists>k\<in>set ?keys. dict_get job k = None"
    then have "find (\<lambda>k. dict_get job k = None) ?keys \<noteq> None"
      unfolding find_None_iff by blast
    then obtain k where f: "find (\<lambda>k. dict_get job k = None) ?keys = Some k" by blast
    from f have "k \<in> set ?keys \<and> dict_get job k = None"
      unfolding find_Some_iff by (metis nth_mem)
    with job_helper_KeyError [OF f]
    show "\<exists>k\<in>set ?keys. dict_get job k = None \<and> job_helper job = Inl (KeyError k)"
      by blast
  qed
  show ?thesis by (rule conjI [OF p1 conjI [OF p2 p3]])
qed

theorem job_helper_response_witness:
  "(\<exists>r. job_helper [(''_id'', BOid 1), (''title'', BStr ''Engineer''), (''company'', BNull),
                    (''url'', BStr ''https://x/1''), (''platform'', BNull),
                    (''status'', BStr ''saved'')] = Inr r
       \<and> dict_get r ''id'' = Some (BStr (str_oid 1))
       \<and> dict_get r ''company'' = Some BNull
       \<and> dict_get r ''location'' = Some BNull
       \<and> dict_get r ''date_saved'' = Some BNull)
   \<and> job_helper [(''_id'', BOid 1), (''title'', BStr ''Engineer''), (''url'', BStr ''https://x/1'')]
       = Inl (KeyError ''company'')
   \<and> (\<exists>k\<in>set [''_id'', ''title'', ''company'', ''url'', ''platform'', ''status''].
         dict_get [(''title'', BStr ''Engineer'')] k = None
         \<and> job_helper [(''title'', BStr ''Engineer'')] = Inl (KeyError k))"
proof -
  let ?job = "[(''_id'', BOid 1), (''title'', BStr ''Engineer''), (''company'', BNull),
               (''url'', BStr ''https://x/1''), (''platform'', BNull),
               (''status'', BStr ''saved'')]"
  let ?bad = "[(''_id'', BOid 1), (''title'', BStr ''Engineer''), (''url'', BStr ''https://x/1'')]"
  have a: "dict_get ?job ''_id'' = Some (BOid 1)" by (simp add: dict_get_def)
  have b: "list_all (\<lambda>k. dict_get ?job k \<noteq> None)
             [''title'', ''company'', ''url'', ''platform'', ''status'']"
    by (simp add: dict_get_def)
  have c: "get_or_none ?job ''date_saved'' = BNull
             \<or> (\<exists>t. get_or_none ?job ''date_saved'' = BDate t)"
    by (simp add: get_or_none_def dict_get_def)
  from job_helper_response [of ?job 1, THEN conjunct1, rule_format, OF conjI [OF a conjI [OF b c]]]
  obtain r where
    r: "job_helper ?job = Inr r" "r = toResponse ?job"
       "dict_get r ''id'' = Some (BStr (str_oid 1))"
    by (elim exE conjE)
  from r(2) have "dict_get r ''company'' = Some BNull" "dict_get r ''location'' = Some BNull"
    "dict_get r ''date_saved'' = Some BNull"
    by (simp_all add: toResponse_def dict_get_def get_or_none_def)
  with r have g: "\<exists>r. job_helper ?job = Inr r
       \<and> dict_get r ''id'' = Some (BStr (str_oid 1))
       \<and> dict_get r ''company'' = Some BNull
       \<and> dict_get r ''location'' = Some BNull
       \<and> dict_get r ''date_saved'' = Some BNull"
    by (intro exI [of _ r]) simp
  have f: "find (\<lambda>k. dict_get ?bad k = None)
             [''_id'', ''title'', ''company'', ''url'', ''platform'', ''status''] = Some ''company''"
    by (simp add: dict_get_def)
  from job_helper_response [of ?bad 1, THEN conjunct2, THEN conjunct1, rule_format, OF f]
  have k: "job_helper ?bad = Inl (KeyError ''company'')" .
  have m: "\<exists>k\<in>set [''_id'', ''title'', ''company'', ''url'', ''platform'', ''status''].
             dict_get [(''title'', BStr ''Engineer'')] k = None"
    by (simp add: dict_get_def)
  note e = job_helper_response [of "[(''title'', BStr ''Engineer'')]" 1,
      THEN conjunct2, THEN conjunct2, THEN mp, OF m]
  show ?thesis by (rule conjI [OF g conjI [OF k e]])
qed

section \<open>Get by identifier (claim C7)\<close>

lemma get_job_invalid:
  "\<not> is_valid job_id \<Longrightarrow> get_job s job_id = Inl (HTTPException 400 (Msg ''Invalid job ID format''))"
  by (simp add: get_job_def)

lemma get_job_valid:
  assumes "ObjectId job_id = Inr i"
  shows "get_job s job_id =
           (case find_one s [(''_id'', i)] of
              None \<Rightarrow> Inl (HTTPException 404 (Msg ''Job not found''))
            | Some j \<Rightarrow> helper_response (Some j))"
proof (cases "find_one s [(''_id'', i)]")
  case None
  with assms show ?thesis by (simp add: get_job_def is_valid_Inr found_def)
next
  case (Some j)
  from assms ObjectId_not_null [of job_id] have "i \<noteq> BNull" by auto
  from find_one_id_found [OF Some this] Some assms show ?thesis
    by (simp add: get_job_def is_valid_Inr)
qed

lemma helper_response_not_404: "helper_response j \<noteq> Inl (HTTPException 404 m)"
  by (simp add: helper_response_def server_error_def split: option.splits sum.splits)

lemma helper_response_not_400: "helper_response j \<noteq> Inl (HTTPException 400 m)"
  by (simp add: helper_response_def server_error_def split: option.splits sum.splits)

lemma get_job_valid_not_400:
  assumes "is_valid job_id"
  shows "get_job s job_id \<noteq> Inl (HTTPException 400 m)"
proof -
  from is_valid_ObjectId [OF assms] obtain i where i: "ObjectId job_id = Inr i" by (elim exE)
  show ?thesis
  proof (cases "find_one s [(''_id'', i)]")
    case None
    then show ?thesis by (simp add: get_job_valid [OF i])
  next
    case (Some j)
    then show ?thesis by (simp add: get_job_valid [OF i] helper_response_not_400)
  qed
qed

lemma get_job_404_valid:
  assumes "get_job s job_id = Inl (HTTPException 404 m)"
  shows "is_valid job_id"
proof (rule ccontr)
  assume "\<not> is_valid job_id"
  then have "get_job s job_id = Inl (HTTPException 400 (Msg ''Invalid job ID format''))"
    by (rule get_job_invalid)
  with assms show False by simp
qed

lemma get_job_404_no_record:
  assumes "get_job s job_id = Inl (HTTPException 404 m)" "ObjectId job_id = Inr i" "d \<in> set s"
  shows "get_or_none d ''_id'' \<noteq> i"
proof
  assume "get_or_none d ''_id'' = i"
  with assms(3) have "find_one s [(''_id'', i)] \<noteq> None"
    by (auto simp: find_one_None_iff matches_single)
  then obtain j where "find_one s [(''_id'', i)] = Some j" by (cases "find_one s [(''_id'', i)]") auto
  with assms(1) get_job_valid [OF assms(2), of s] show False
    by (simp add: helper_response_not_404)
qed

lemma get_job_first:
  assumes "ObjectId job_id = Inr i" "find (\<lambda>d. get_or_none d ''_id'' = i) s = Some d"
  shows "get_job s job_id = (case job_helper d of Inl e \<Rightarrow> Inl (server_error e) | Inr r \<Rightarrow> Inr r)"
proof -
  from assms(2) have "find_one s [(''_id'', i)] = Some d" by (simp add: find_one_find)
  then show ?thesis
    by (simp add: get_job_valid [OF assms(1)] helper_response_def)
qed

lemma get_job_found:
  assumes "ObjectId job_id = Inr i" "wf_store s" "d \<in> set s" "get_or_none d ''_id'' = i"
  shows "get_job s job_id = Inr (toResponse d)"
proof -
  from assms have wf: "wf_doc d" by (simp add: wf_store_def list_all_iff)
  have u: "\<forall>d'\<in>set s. matches [(''_id'', i)] d' \<longrightarrow> d' = d"
  proof (intro ballI impI)
    fix d' assume m: "d' \<in> set s" "matches [(''_id'', i)] d'"
    then have "get_or_none d ''_id'' = get_or_none d' ''_id''"
      using assms(4) by (simp add: matches_single)
    from wf_store_unique_id [OF assms(2) assms(3) m(1) this] show "d' = d" .
  qed
  have "matches [(''_id'', i)] d" using assms(4) by (simp add: matches_single)
  from find_one_unique [OF assms(3) this u] have "find_one s [(''_id'', i)] = Some d" .
  then show ?thesis
    by (simp add: get_job_valid [OF assms(1)] helper_response_def job_helper_wf [OF wf])
qed

text \<open>
  Claim C7, as far as it fails. The identifier is valid and a record carries it, but the
  record has no \<^verbatim>\<open>title\<close>: \<^verbatim>\<open>job_helper\<close> raises \<^verbatim>\<open>KeyError\<close> and the answer is the
  error 500, not the record's response shape.
\<close>

theorem get_job_record_without_title:
  "is_valid ''000000000000000000000001''
   \<and> str_oid 1 = ''000000000000000000000001''
   \<and> get_or_none [(''_id'', BOid 1), (''status'', BStr ''saved'')] ''_id'' = BOid 1
   \<and> get_job [[(''_id'', BOid 1), (''status'', BStr ''saved'')]] ''000000000000000000000001''
       = Inl (HTTPException 500 (StrOf (KeyError ''title'')))"
  by (simp add: get_job_def is_valid_def ObjectId_def hexval_def is_space_def bytes_value_def
      str_oid_def to_digits_eval digit_char_def find_one_def matches_def field_eq_def
      get_or_none_def dict_get_def found_def helper_response_def job_helper_def and_then_def
      subscript_def server_error_def)

text \<open>
  Claim C7, amended. Get-by-ID on an identifier string. The strings that denote the
  12-byte identifier \<open>x\<close> are its 24 hexadecimal digits, in either case of the letters.
  A string that is not of the store's format (24 characters that decode as hexadecimal
  bytes) gives the error 400 whatever the collection holds, so the store is not
  consulted, and a string of that format never gives it. The 24 digits of an identifier
  that no record carries give the error 404; the error 404 arises only for a string of
  the valid format, and, when the string is the 24 digits of an identifier, only when
  no record carries that identifier. The 24 digits of the identifier of a record (the
  first that carries it, the store keeping \<^verbatim>\<open>_id\<close> unique) give what \<^verbatim>\<open>job_helper\<close>
  makes of that record: its response shape when the record is well formed, the error
  500 when \<^verbatim>\<open>job_helper\<close> raises.
\<close>

theorem get_job_cases:
  "(ObjectId job_id = Inr (BOid x) \<longleftrightarrow> map lower job_id = str_oid x)
   \<and> (\<not> is_valid job_id \<longrightarrow>
      (\<forall>s'. get_job s' job_id = Inl (HTTPException 400 (Msg ''Invalid job ID format''))))
   \<and> (is_valid job_id \<longrightarrow> get_job s job_id \<noteq> Inl (HTTPException 400 m))
   \<and> (map lower job_id = str_oid x \<and> (\<forall>d\<in>set s. get_or_none d ''_id'' \<noteq> BOid x) \<longrightarrow>
        is_valid job_id \<and> get_job s job_id = Inl (HTTPException 404 (Msg ''Job not found'')))
   \<and> (get_job s job_id = Inl (HTTPException 404 m) \<longrightarrow>
        is_valid job_id
        \<and> (map lower job_id = str_oid x \<longrightarrow> (\<forall>d\<in>set s. get_or_none d ''_id'' \<noteq> BOid x)))
   \<and> (map lower job_id = str_oid x \<and> find (\<lambda>d. get_or_none d ''_id'' = BOid x) s = Some d \<longrightarrow>
        is_valid job_id
        \<and> get_job s job_id
            = (case job_helper d of Inl e \<Rightarrow> Inl (server_error e) | Inr r \<Rightarrow> Inr r)
        \<and> (wf_doc d \<longrightarrow> get_job s job_id = Inr (toResponse d)))"
proof -
  have p0: "ObjectId job_id = Inr (BOid x) \<longleftrightarrow> map lower job_id = str_oid x"
    by (rule ObjectId_BOid_iff)
  have p1: "\<not> is_valid job_id \<longrightarrow>
      (\<forall>s'. get_job s' job_id = Inl (HTTPException 400 (Msg ''Invalid job ID format'')))"
    by (simp add: get_job_invalid)
  have q: "is_valid job_id \<longrightarrow> get_job s job_id \<noteq> Inl (HTTPException 400 m)"
    by (simp add: get_job_valid_not_400)
  have p2: "map lower job_id = str_oid x \<and> (\<forall>d\<in>set s. get_or_none d ''_id'' \<noteq> BOid x) \<longrightarrow>
        is_valid job_id \<and> get_job s job_id = Inl (HTTPException 404 (Msg ''Job not found''))"
  proof
    assume a: "map lower job_id = str_oid x \<and> (\<forall>d\<in>set s. get_or_none d ''_id'' \<noteq> BOid x)"
    then have o: "ObjectId job_id = Inr (BOid x)" by (simp add: ObjectId_BOid_iff)
    from a have "find_one s [(''_id'', BOid x)] = None"
      by (simp add: find_one_None_iff matches_single)
    with o show "is_valid job_id \<and> get_job s job_id = Inl (HTTPException 404 (Msg ''Job not found''))"
      by (simp add: get_job_valid [OF o] is_valid_Inr)
  qed
  have p3: "get_job s job_id = Inl (HTTPException 404 m) \<longrightarrow>
        is_valid job_id
        \<and> (map lower job_id = str_oid x \<longrightarrow> (\<forall>d\<in>set s. get_or_none d ''_id'' \<noteq> BOid x))"
  proof
    assume a: "get_job s job_id = Inl (HTTPException 404 m)"
    have "map lower job_id = str_oid x \<longrightarrow> (\<forall>d\<in>set s. get_or_none d ''_id'' \<noteq> BOid x)"
    proof (intro impI ballI)
      fix d assume "map lower job_id = str_oid x" "d \<in> set s"
      then have "ObjectId job_id = Inr (BOid x)" "d \<in> set s" by (simp_all add: ObjectId_BOid_iff)
      from get_job_404_no_record [OF a this] show "get_or_none d ''_id'' \<noteq> BOid x" .
    qed
    with get_job_404_valid [OF a]
    show "is_valid job_id
        \<and> (map lower job_id = str_oid x \<longrightarrow> (\<forall>d\<in>set s. get_or_none d ''_id'' \<noteq> BOid x))"
      by (rule conjI)
  qed
  have p4: "map lower job_id = str_oid x \<and> find (\<lambda>d. get_or_none d ''_id'' = BOid x) s = Some d \<longrightarrow>
        is_valid job_id
        \<and> get_job s job_id
            = (case job_helper d of Inl e \<Rightarrow> Inl (server_error e) | Inr r \<Rightarrow> Inr r)
        \<and> (wf_doc d \<longrightarrow> get_job s job_id = Inr (toResponse d))"
  proof
    assume a: "map lower job_id = str_oid x \<and> find (\<lambda>d. get_or_none d ''_id'' = BOid x) s = Some d"
    then have o: "ObjectId job_id = Inr (BOid x)" by (simp add: ObjectId_BOid_iff)
    from a have f: "find (\<lambda>d. get_or_none d ''_id'' = BOid x) s = Some d" by (rule conjunct2)
    note g = get_job_first [OF o f]
    have "wf_doc d \<longrightarrow> get_job s job_id = Inr (toResponse d)"
      by (simp add: g job_helper_wf)
    with g is_valid_Inr [OF o]
    show "is_valid job_id
        \<and> get_job s job_id
            = (case job_helper d of Inl e \<Rightarrow> Inl (server_error e) | Inr r \<Rightarrow> Inr r)
        \<and> (wf_doc d \<longrightarrow> get_job s job_id = Inr (toResponse d))"
      by (intro conjI)
  qed
  show ?thesis by (rule conjI [OF p0 conjI [OF p1 conjI [OF q conjI [OF p2 conjI [OF p3 p4]]]]])
qed

theorem get_job_cases_witness:
  "get_job [] ''xyz'' = Inl (HTTPException 400 (Msg ''Invalid job ID format''))
   \<and> ObjectId ''00000000000000000000000A'' = Inr (BOid 10)
   \<and> is_valid ''0000000000000000000000  ''
   \<and> get_job [] ''0000000000000000000000  ''
        \<noteq> Inl (HTTPException 400 (Msg ''Invalid job ID format''))
   \<and> get_job [] ''000000000000000000000001'' = Inl (HTTPException 404 (Msg ''Job not found''))
   \<and> is_valid ''000000000000000000000001''
   \<and> get_job [[(''_id'', BOid 1), (''title'', BStr ''Engineer''), (''company'', BStr ''Acme''),
                 (''url'', BStr ''https://x/1''), (''platform'', BNull), (''status'', BStr ''saved'')]]
              ''000000000000000000000001''
      = Inr [(''id'', BStr ''000000000000000000000001''), (''title'', BStr ''Engineer''),
             (''company'', BStr ''Acme''), (''location'', BNull), (''url'', BStr ''https://x/1''),
             (''platform'', BNull), (''description'', BNull), (''status'', BStr ''saved''),
             (''notes'', BNull), (''date_saved'', BNull)]"
proof -
  let ?d = "[(''_id'', BOid 1), (''title'', BStr ''Engineer''), (''company'', BStr ''Acme''),
             (''url'', BStr ''https://x/1''), (''platform'', BNull), (''status'', BStr ''saved'')]"
  let ?one = "''000000000000000000000001''"
  let ?ws = "''0000000000000000000000  ''"
  let ?bad = "Msg ''Invalid job ID format''"
  have v: "\<not> is_valid ''xyz''" by (simp add: is_valid_def ObjectId_def)
  have l1: "map lower ?one = str_oid 1"
    by (simp add: lower_def str_oid_def to_digits_eval digit_char_def)
  have l10: "map lower ''00000000000000000000000A'' = str_oid 10"
    by (simp add: lower_def str_oid_def to_digits_eval digit_char_def)
  have vw: "is_valid ?ws"
    by (simp add: is_valid_def ObjectId_def hexval_def is_space_def)
  have w: "wf_doc ?d"
    by (simp add: wf_doc_def dict_get_def get_or_none_def)
  have f: "find (\<lambda>d. get_or_none d ''_id'' = BOid 1) [?d] = Some ?d"
    by (simp add: get_or_none_def dict_get_def)
  have t: "toResponse ?d = [(''id'', BStr ''000000000000000000000001''), (''title'', BStr ''Engineer''),
             (''company'', BStr ''Acme''), (''location'', BNull), (''url'', BStr ''https://x/1''),
             (''platform'', BNull), (''description'', BNull), (''status'', BStr ''saved''),
             (''notes'', BNull), (''date_saved'', BNull)]"
    by (simp add: toResponse_def get_or_none_def dict_get_def str_oid_def to_digits_eval
        digit_char_def)
  have c1: "get_job [] ''xyz'' = Inl (HTTPException 400 ?bad)"
    using get_job_cases [of "''xyz''" 0 "[]" "Msg []" "[]", THEN conjunct2, THEN conjunct1] v
    by simp
  have c0: "ObjectId ''00000000000000000000000A'' = Inr (BOid 10)"
    using get_job_cases [of "''00000000000000000000000A''" 10 "[]" "Msg []" "[]", THEN conjunct1]
      l10 by simp
  have cw: "get_job [] ?ws \<noteq> Inl (HTTPException 400 ?bad)"
    using get_job_cases [of ?ws 0 "[]" ?bad "[]", THEN conjunct2, THEN conjunct2, THEN conjunct1]
      vw by simp
  have c2: "get_job [] ?one = Inl (HTTPException 404 (Msg ''Job not found''))"
    using get_job_cases [of ?one 1 "[]" "Msg []" "[]",
        THEN conjunct2, THEN conjunct2, THEN conjunct2, THEN conjunct1] l1 by simp
  have c3: "is_valid ?one"
    using get_job_cases [of ?one 1 "[]" "Msg ''Job not found''" "[]",
        THEN conjunct2, THEN conjunct2, THEN conjunct2, THEN conjunct2, THEN conjunct1] c2
    by simp
  have c4: "get_job [?d] ?one = Inr (toResponse ?d)"
    by (rule get_job_cases [of ?one 1 "[?d]" "Msg []" ?d,
          THEN conjunct2, THEN conjunct2, THEN conjunct2, THEN conjunct2, THEN conjunct2,
          THEN mp, OF conjI [OF l1 f], THEN conjunct2, THEN conjunct2, THEN mp, OF w])
  from c1 c0 vw cw c2 c3 c4 t show ?thesis by simp
qed

section \<open>Create (claim C1)\<close>

lemma find_one_matching:
  assumes "d \<in> set s" "matches q d"
  shows "\<exists>j. find_one s q = Some j \<and> j \<in> set s \<and> matches q j"
proof (cases "find_one s q")
  case None
  with assms show ?thesis by (simp add: find_one_None_iff)
next
  case (Some j)
  with find_one_SomeD [OF Some] show ?thesis by simp
qed

text \<open>
  Claim C1. When some record of the store has the url of the create request (every
  stored document holding at least its \<^verbatim>\<open>_id\<close>, so none is empty), \<^verbatim>\<open>create_job\<close>
  fails with 400 "Job already exists" and leaves the collection as it was, its record
  count included.
\<close>

theorem create_job_existing_url:
  assumes "[] \<notin> set s"
    and "d \<in> set s"
    and "get_or_none d ''url'' = opt_str (JobBase.url job)"
  shows "create_job s job now new_id = (Inl (HTTPException 400 (Msg ''Job already exists'')), s)
     \<and> length (snd (create_job s job now new_id)) = length s"
proof -
  from assms(3) have "matches [(''url'', opt_str (JobBase.url job))] d"
    by (simp add: matches_single)
  from find_one_matching [OF assms(2) this] obtain j
    where j: "find_one s [(''url'', opt_str (JobBase.url job))] = Some j" "j \<in> set s"
    by (elim exE conjE)
  from j(2) assms(1) have "j \<noteq> []" by auto
  with j(1) have "found (find_one s [(''url'', opt_str (JobBase.url job))])"
    by (simp add: found_def)
  then show ?thesis by (simp add: create_job_def)
qed

theorem create_job_existing_url_witness:
  "create_job
     [[(''_id'', BOid 1), (''title'', BStr ''Engineer''), (''company'', BStr ''Acme''),
       (''url'', BStr ''https://x/1''), (''platform'', BNull), (''status'', BStr ''saved'')]]
     \<lparr>JobBase.title = Some ''Other'', company = None, url = Some ''https://x/1'',
      platform = None, location = None, description = None, status = ''saved'',
      notes = None, date_saved = None\<rparr>
     \<lparr>year = 2024, month = 1, day = 2, hour = 3, minute = 4, second = 5, microsecond = 6\<rparr>
     2
   = (Inl (HTTPException 400 (Msg ''Job already exists'')),
      [[(''_id'', BOid 1), (''title'', BStr ''Engineer''), (''company'', BStr ''Acme''),
       (''url'', BStr ''https://x/1''), (''platform'', BNull), (''status'', BStr ''saved'')]])"
proof -
  let ?d = "[(''_id'', BOid 1), (''title'', BStr ''Engineer''), (''company'', BStr ''Acme''),
       (''url'', BStr ''https://x/1''), (''platform'', BNull), (''status'', BStr ''saved'')]"
  let ?job = "\<lparr>JobBase.title = Some ''Other'', company = None, url = Some ''https://x/1'',
      platform = None, location = None, description = None, status = ''saved'',
      notes = None, date_saved = None\<rparr>"
  have a: "[] \<notin> set [?d]" by simp
  have b: "?d \<in> set [?d]" by simp
  have c: "get_or_none ?d ''url'' = opt_str (JobBase.url ?job)"
    by (simp add: get_or_none_def dict_get_def opt_str_def)
  from create_job_existing_url [OF a b c] show ?thesis by (rule conjunct1)
qed

section \<open>Update (claims C4 and C5)\<close>

lemma dict_get_dict_set: "map_of (dict_set d k v) = (map_of d)(k \<mapsto> v)"
  by (induction d k v rule: dict_set.induct) auto

lemma dict_get_set_other: "k' \<noteq> k \<Longrightarrow> dict_get (dict_set d k v) k' = dict_get d k'"
  by (simp add: dict_get_def dict_get_dict_set)

lemma set_fields_other:
  "k \<notin> fst ` set upd \<Longrightarrow> dict_get (set_fields upd d) k = dict_get d k"
  unfolding set_fields_def
proof (induction upd arbitrary: d)
  case Nil
  then show ?case by simp
next
  case (Cons a upd)
  obtain k' v' where a: "a = (k', v')" by (cases a)
  with Cons.prems have "k \<noteq> k'" "k \<notin> fst ` set upd" by auto
  with Cons.IH [of "dict_set d k' (stored_value v')"] a show ?case
    by (simp add: dict_get_set_other)
qed

lemma update_one_Cons:
  "update_one (d # s) q upd =
     (if matches q d then (1, set_fields upd d # s)
      else (fst (update_one s q upd), d # snd (update_one s q upd)))"
  by (simp split: prod.splits)

lemma update_one_length: "length (snd (update_one s q upd)) = length s"
  by (induction s) (simp_all add: update_one_Cons del: update_one.simps(2))

lemma update_one_frame:
  assumes "k \<notin> fst ` set upd" "m < length s"
  shows "dict_get (snd (update_one s q upd) ! m) k = dict_get (s ! m) k"
  using assms(2)
proof (induction s arbitrary: m)
  case Nil
  then show ?case by simp
next
  case (Cons d s)
  show ?case
  proof (cases m)
    case 0
    then show ?thesis
      using assms(1) by (simp add: update_one_Cons set_fields_other del: update_one.simps(2))
  next
    case (Suc n)
    with Cons.prems have "n < length s" by simp
    from Cons.IH [OF this] Suc show ?thesis
      by (simp add: update_one_Cons del: update_one.simps(2))
  qed
qed

lemma update_one_unmatched:
  "fst (update_one s q upd) = 0 \<Longrightarrow> snd (update_one s q upd) = s"
  by (induction s) (simp_all add: update_one_Cons del: update_one.simps(2) split: if_splits)

lemma update_one_matched_iff:
  "fst (update_one s q upd) = 0 \<longleftrightarrow> (\<forall>d\<in>set s. \<not> matches q d)"
  by (induction s) (simp_all add: update_one_Cons del: update_one.simps(2))

lemma update_data_keys:
  "fst ` set (filter (\<lambda>(k, v). v \<noteq> BNull) (JobUpdate_dict u))
     \<subseteq> {''title'', ''company'', ''location'', ''status'', ''notes''}"
  by (auto simp: JobUpdate_dict_def)

lemma update_data_empty_iff:
  "filter (\<lambda>(k, v). v \<noteq> BNull) (JobUpdate_dict u) = [] \<longleftrightarrow>
     JobUpdate.title u = None \<and> JobUpdate.company u = None \<and> JobUpdate.location u = None
     \<and> JobUpdate.status u = None \<and> JobUpdate.notes u = None"
  by (simp add: JobUpdate_dict_def opt_str_def split: option.splits)

lemma update_job_invalid:
  "\<not> is_valid job_id \<Longrightarrow>
     update_job s job_id u = (Inl (HTTPException 400 (Msg ''Invalid job ID format'')), s)"
  by (simp add: update_job_def)

lemma update_job_empty:
  assumes "is_valid job_id" "filter (\<lambda>(k, v). v \<noteq> BNull) (JobUpdate_dict u) = []"
  shows "update_job s job_id u = (Inl (HTTPException 400 (Msg ''No valid fields to update'')), s)"
  using assms by (simp add: update_job_def)

lemma update_job_valid:
  assumes "ObjectId job_id = Inr i" "filter (\<lambda>(k, v). v \<noteq> BNull) (JobUpdate_dict u) \<noteq> []"
  shows "update_job s job_id u =
     (let r = update_one s [(''_id'', i)] (filter (\<lambda>(k, v). v \<noteq> BNull) (JobUpdate_dict u))
      in if fst r = 0 then (Inl (HTTPException 404 (Msg ''Job not found'')), snd r)
         else (helper_response (find_one (snd r) [(''_id'', i)]), snd r))"
  using assms by (simp add: update_job_def is_valid_Inr Let_def split: prod.splits)

lemma update_job_store:
  "snd (update_job s job_id u) = s
   \<or> (\<exists>i. snd (update_job s job_id u) =
         snd (update_one s [(''_id'', i)] (filter (\<lambda>(k, v). v \<noteq> BNull) (JobUpdate_dict u))))"
proof (cases "is_valid job_id")
  case False
  then show ?thesis by (simp add: update_job_invalid)
next
  case True
  then obtain i where i: "ObjectId job_id = Inr i" using is_valid_ObjectId by blast
  show ?thesis
  proof (cases "filter (\<lambda>(k, v). v \<noteq> BNull) (JobUpdate_dict u) = []")
    case True
    with \<open>is_valid job_id\<close> show ?thesis by (simp add: update_job_empty)
  next
    case False
    from update_job_valid [OF i False, of s] show ?thesis
      by (auto simp: Let_def)
  qed
qed

text \<open>
  Claim C4. Whatever an update returns, every record of the collection keeps every field
  outside title, company, location, status and notes: in particular url, platform,
  date_saved and the identifier \<^verbatim>\<open>_id\<close> are the same before and after, and no record
  is added or removed.
\<close>

theorem update_job_frame:
  assumes "update_job s job_id job_update = (res, s')"
    and "k \<notin> {''title'', ''company'', ''location'', ''status'', ''notes''}"
  shows "length s' = length s \<and> (\<forall>m<length s. dict_get (s' ! m) k = dict_get (s ! m) k)"
proof -
  let ?upd = "filter (\<lambda>(k, v). v \<noteq> BNull) (JobUpdate_dict job_update)"
  from assms(2) update_data_keys [of job_update] have k: "k \<notin> fst ` set ?upd" by blast
  from assms(1) have s': "s' = snd (update_job s job_id job_update)" by simp
  from update_job_store [of s job_id job_update] show ?thesis
  proof
    assume "snd (update_job s job_id job_update) = s"
    with s' show ?thesis by simp
  next
    assume "\<exists>i. snd (update_job s job_id job_update) = snd (update_one s [(''_id'', i)] ?upd)"
    then obtain i where "s' = snd (update_one s [(''_id'', i)] ?upd)"
      using s' by auto
    then show ?thesis
      using update_one_frame [OF k] by (simp add: update_one_length)
  qed
qed

text \<open>
  Claim C5, amended. An update whose identifier has the valid format (24 characters that
  decode as hexadecimal bytes) and whose fields are all absent or null fails with 400
  "No valid fields to update" and leaves the collection unchanged; an update whose
  identifier has not the valid format fails with 400 "Invalid job ID format", whatever
  its fields, and leaves the collection unchanged; an update whose identifier is the 24
  hexadecimal digits of an identifier that no record carries, with some field given,
  fails with 404 "Job not found" and leaves the collection unchanged.
\<close>

theorem update_job_errors:
  "(is_valid job_id
      \<and> JobUpdate.title u = None \<and> JobUpdate.company u = None \<and> JobUpdate.location u = None
      \<and> JobUpdate.status u = None \<and> JobUpdate.notes u = None \<longrightarrow>
      update_job s job_id u = (Inl (HTTPException 400 (Msg ''No valid fields to update'')), s))
   \<and> (\<not> is_valid job_id \<longrightarrow>
      update_job s job_id u = (Inl (HTTPException 400 (Msg ''Invalid job ID format'')), s))
   \<and> (map lower job_id = str_oid x
      \<and> \<not> (JobUpdate.title u = None \<and> JobUpdate.company u = None \<and> JobUpdate.location u = None
            \<and> JobUpdate.status u = None \<and> JobUpdate.notes u = None)
      \<and> (\<forall>d\<in>set s. get_or_none d ''_id'' \<noteq> BOid x) \<longrightarrow>
      is_valid job_id
      \<and> update_job s job_id u = (Inl (HTTPException 404 (Msg ''Job not found'')), s))"
proof -
  let ?upd = "filter (\<lambda>(k, v). v \<noteq> BNull) (JobUpdate_dict u)"
  let ?none = "JobUpdate.title u = None \<and> JobUpdate.company u = None \<and> JobUpdate.location u = None
      \<and> JobUpdate.status u = None \<and> JobUpdate.notes u = None"
  have p1: "is_valid job_id \<and> ?none \<longrightarrow>
      update_job s job_id u = (Inl (HTTPException 400 (Msg ''No valid fields to update'')), s)"
    using update_job_empty [of job_id u s] by (simp add: update_data_empty_iff)
  have p2: "\<not> is_valid job_id \<longrightarrow>
      update_job s job_id u = (Inl (HTTPException 400 (Msg ''Invalid job ID format'')), s)"
    by (simp add: update_job_invalid)
  have p3: "map lower job_id = str_oid x \<and> \<not> ?none
      \<and> (\<forall>d\<in>set s. get_or_none d ''_id'' \<noteq> BOid x) \<longrightarrow>
      is_valid job_id
      \<and> update_job s job_id u = (Inl (HTTPException 404 (Msg ''Job not found'')), s)"
  proof
    assume a: "map lower job_id = str_oid x \<and> \<not> ?none
      \<and> (\<forall>d\<in>set s. get_or_none d ''_id'' \<noteq> BOid x)"
    then have ne: "?upd \<noteq> []" by (simp add: update_data_empty_iff)
    from a have z: "fst (update_one s [(''_id'', BOid x)] ?upd) = 0"
      by (simp add: update_one_matched_iff matches_single)
    from a have i: "ObjectId job_id = Inr (BOid x)" by (simp add: ObjectId_BOid_iff)
    from update_job_valid [OF i ne, of s] z update_one_unmatched [OF z]
    have "update_job s job_id u = (Inl (HTTPException 404 (Msg ''Job not found'')), s)"
      by (simp add: Let_def)
    with is_valid_Inr [OF i]
    show "is_valid job_id
      \<and> update_job s job_id u = (Inl (HTTPException 404 (Msg ''Job not found'')), s)"
      by (rule conjI)
  qed
  show ?thesis by (rule conjI [OF p1 conjI [OF p2 p3]])
qed

text \<open>
  Claim C5, as far as it fails. The identifier format is checked first: an update with
  no field given and an identifier that is not valid fails with "Invalid job ID format",
  not with "No valid fields to update".
\<close>

theorem update_job_empty_invalid_id:
  "update_job [] ''xyz''
     \<lparr>JobUpdate.title = None, company = None, location = None, status = None, notes = None\<rparr>
   = (Inl (HTTPException 400 (Msg ''Invalid job ID format'')), [])"
  by (simp add: update_job_def is_valid_def ObjectId_def)

theorem update_job_frame_witness:
  "update_job
     [[(''_id'', BOid 1), (''title'', BStr ''Engineer''), (''company'', BStr ''Acme''),
       (''url'', BStr ''https://x/1''), (''platform'', BNull), (''status'', BStr ''saved'')]]
     ''000000000000000000000001''
     \<lparr>JobUpdate.title = None, company = None, location = None, status = Some ''applied'',
      notes = None\<rparr>
   = (Inr [(''id'', BStr ''000000000000000000000001''), (''title'', BStr ''Engineer''),
           (''company'', BStr ''Acme''), (''location'', BNull), (''url'', BStr ''https://x/1''),
           (''platform'', BNull), (''description'', BNull), (''status'', BStr ''applied''),
           (''notes'', BNull), (''date_saved'', BNull)],
      [[(''_id'', BOid 1), (''title'', BStr ''Engineer''), (''company'', BStr ''Acme''),
        (''url'', BStr ''https://x/1''), (''platform'', BNull), (''status'', BStr ''applied'')]])
   \<and> dict_get
        ([[(''_id'', BOid 1), (''title'', BStr ''Engineer''), (''company'', BStr ''Acme''),
           (''url'', BStr ''https://x/1''), (''platform'', BNull), (''status'', BStr ''applied'')]] ! 0)
        ''url''
     = dict_get
        ([[(''_id'', BOid 1), (''title'', BStr ''Engineer''), (''company'', BStr ''Acme''),
           (''url'', BStr ''https://x/1''), (''platform'', BNull), (''status'', BStr ''saved'')]] ! 0)
        ''url''"
proof -
  let ?s = "[[(''_id'', BOid 1), (''title'', BStr ''Engineer''), (''company'', BStr ''Acme''),
       (''url'', BStr ''https://x/1''), (''platform'', BNull), (''status'', BStr ''saved'')]]"
  let ?s' = "[[(''_id'', BOid 1), (''title'', BStr ''Engineer''), (''company'', BStr ''Acme''),
        (''url'', BStr ''https://x/1''), (''platform'', BNull), (''status'', BStr ''applied'')]]"
  let ?u = "\<lparr>JobUpdate.title = None, company = None, location = None, status = Some ''applied'',
      notes = None\<rparr>"
  let ?r = "[(''id'', BStr ''000000000000000000000001''), (''title'', BStr ''Engineer''),
           (''company'', BStr ''Acme''), (''location'', BNull), (''url'', BStr ''https://x/1''),
           (''platform'', BNull), (''description'', BNull), (''status'', BStr ''applied''),
           (''notes'', BNull), (''date_saved'', BNull)]"
  have e: "update_job ?s ''000000000000000000000001'' ?u = (Inr ?r, ?s')"
    by code_simp
  have k: "''url'' \<notin> {''title'', ''company'', ''location'', ''status'', ''notes''}"
    by simp
  from update_job_frame [OF e k] have "dict_get (?s' ! 0) ''url'' = dict_get (?s ! 0) ''url''"
    by simp
  with e show ?thesis by (rule conjI)
qed

theorem update_job_errors_witness:
  "update_job [] ''000000000000000000000001''
     \<lparr>JobUpdate.title = None, company = None, location = None, status = None, notes = None\<rparr>
   = (Inl (HTTPException 400 (Msg ''No valid fields to update'')), [])
   \<and> update_job [] ''0000000000000000000000  ''
     \<lparr>JobUpdate.title = None, company = None, location = None, status = None, notes = None\<rparr>
   = (Inl (HTTPException 400 (Msg ''No valid fields to update'')), [])
   \<and> update_job [] ''xyz''
     \<lparr>JobUpdate.title = None, company = None, location = None, status = Some ''applied'',
      notes = None\<rparr>
   = (Inl (HTTPException 400 (Msg ''Invalid job ID format'')), [])
   \<and> update_job
     [[(''_id'', BOid 1), (''title'', BStr ''Engineer''), (''company'', BStr ''Acme''),
       (''url'', BStr ''https://x/1''), (''platform'', BNull), (''status'', BStr ''saved'')]]
     ''000000000000000000000002''
     \<lparr>JobUpdate.title = None, company = None, location = None, status = Some ''applied'',
      notes = None\<rparr>
   = (Inl (HTTPException 404 (Msg ''Job not found'')),
      [[(''_id'', BOid 1), (''title'', BStr ''Engineer''), (''company'', BStr ''Acme''),
       (''url'', BStr ''https://x/1''), (''platform'', BNull), (''status'', BStr ''saved'')]])"
proof -
  let ?s = "[[(''_id'', BOid 1), (''title'', BStr ''Engineer''), (''company'', BStr ''Acme''),
       (''url'', BStr ''https://x/1''), (''platform'', BNull), (''status'', BStr ''saved'')]]"
  let ?n = "\<lparr>JobUpdate.title = None, company = None, location = None, status = None,
      notes = None\<rparr>"
  let ?u = "\<lparr>JobUpdate.title = None, company = None, location = None, status = Some ''applied'',
      notes = None\<rparr>"
  have v1: "is_valid ''000000000000000000000001''"
    by (simp add: is_valid_def ObjectId_def hexval_def is_space_def)
  have vw: "is_valid ''0000000000000000000000  ''"
    by (simp add: is_valid_def ObjectId_def hexval_def is_space_def)
  have v2: "\<not> is_valid ''xyz''" by (simp add: is_valid_def ObjectId_def)
  have o: "map lower ''000000000000000000000002'' = str_oid 2"
    by (simp add: lower_def str_oid_def to_digits_eval)
  have c1: "update_job [] ''000000000000000000000001'' ?n
      = (Inl (HTTPException 400 (Msg ''No valid fields to update'')), [])"
    using update_job_errors [of "''000000000000000000000001''" ?n "[]" 0, THEN conjunct1] v1
    by simp
  have cw: "update_job [] ''0000000000000000000000  '' ?n
      = (Inl (HTTPException 400 (Msg ''No valid fields to update'')), [])"
    using update_job_errors [of "''0000000000000000000000  ''" ?n "[]" 0, THEN conjunct1] vw
    by simp
  have c2: "update_job [] ''xyz'' ?u = (Inl (HTTPException 400 (Msg ''Invalid job ID format'')), [])"
    using update_job_errors [of "''xyz''" ?u "[]" 0, THEN conjunct2, THEN conjunct1] v2
    by simp
  have g: "\<forall>d\<in>set ?s. get_or_none d ''_id'' \<noteq> BOid 2"
    by (simp add: get_or_none_def dict_get_def)
  have n: "\<not> (JobUpdate.title ?u = None \<and> JobUpdate.company ?u = None
            \<and> JobUpdate.location ?u = None
            \<and> JobUpdate.status ?u = None \<and> JobUpdate.notes ?u = None)"
    by simp
  have c3: "update_job ?s ''000000000000000000000002'' ?u
      = (Inl (HTTPException 404 (Msg ''Job not found'')), ?s)"
    by (rule update_job_errors [of "''000000000000000000000002''" ?u ?s 2,
          THEN conjunct2, THEN conjunct2, THEN mp, OF conjI [OF o conjI [OF n g]],
          THEN conjunct2])
  from c1 cw c2 c3 show ?thesis by simp
qed

section \<open>Listing with an empty filter (claim C10)\<close>

text \<open>
  Claim C10. A status filter, or a platform filter, supplied as the empty string is
  treated as absent: the list request gives what the same request gives without that
  filter.
\<close>

theorem get_jobs_empty_filter:
  "get_jobs s (Some '''') platform_q limit skip = get_jobs s None platform_q limit skip
   \<and> get_jobs s status_q (Some '''') limit skip = get_jobs s status_q None limit skip"
  by (simp add: get_jobs_def add_filter_def opt_str_def)

theorem get_jobs_empty_filter_witness:
  "get_jobs
     [[(''_id'', BOid 1), (''title'', BStr ''Engineer''), (''company'', BStr ''Acme''),
       (''url'', BStr ''https://x/1''), (''platform'', BNull), (''status'', BStr ''saved'')]]
     (Some '''') None 50 0
   = Inr [[(''id'', BStr ''000000000000000000000001''), (''title'', BStr ''Engineer''),
           (''company'', BStr ''Acme''), (''location'', BNull), (''url'', BStr ''https://x/1''),
           (''platform'', BNull), (''description'', BNull), (''status'', BStr ''saved''),
           (''notes'', BNull), (''date_saved'', BNull)]]"
proof -
  let ?s = "[[(''_id'', BOid 1), (''title'', BStr ''Engineer''), (''company'', BStr ''Acme''),
       (''url'', BStr ''https://x/1''), (''platform'', BNull), (''status'', BStr ''saved'')]]"
  have "get_jobs ?s None None 50 0
      = Inr [[(''id'', BStr ''000000000000000000000001''), (''title'', BStr ''Engineer''),
           (''company'', BStr ''Acme''), (''location'', BNull), (''url'', BStr ''https://x/1''),
           (''platform'', BNull), (''description'', BNull), (''status'', BStr ''saved''),
           (''notes'', BNull), (''date_saved'', BNull)]]"
    by code_simp
  with get_jobs_empty_filter [of ?s None 50 0 None, THEN conjunct1] show ?thesis by simp
qed

section \<open>Create, then get (claim C9)\<close>

lemma and_then_Inr: "and_then x f = Inr r \<longleftrightarrow> (\<exists>a. x = Inr a \<and> f a = Inr r)"
  by (cases x) (simp_all add: and_then_def)

lemma subscript_Inr: "subscript d k = Inr v \<longleftrightarrow> dict_get d k = Some v"
  by (simp add: subscript_def split: option.splits)

lemma job_helper_id:
  assumes "job_helper j = Inr r"
  shows "\<exists>i. dict_get j ''_id'' = Some i \<and> dict_get r ''id'' = Some (BStr (py_str i))"
  using assms
  by (clarsimp simp: job_helper_def and_then_Inr subscript_Inr) (simp add: dict_get_def)

lemma helper_response_Inr:
  "helper_response x = Inr r \<longleftrightarrow> (\<exists>j. x = Some j \<and> job_helper j = Inr r)"
  by (simp add: helper_response_def server_error_def split: option.splits sum.splits)

lemma insert_one_Inr:
  "insert_one s doc new_id = Inr (i, s') \<Longrightarrow>
     i = new_id \<and> s' = s @ [(''_id'', BOid new_id) # map (\<lambda>(k, v). (k, stored_value v)) doc]"
  by (auto simp: insert_one_def split: if_splits)

lemma create_job_Inr:
  assumes "create_job s job now new_id = (Inr r, s')"
  shows "helper_response (find_one s' [(''_id'', BOid new_id)]) = Inr r"
proof -
  let ?doc = "dict_set (JobBase_dict job) ''date_saved'' (BDate now)"
  from assms have nf: "\<not> found (find_one s [(''url'', opt_str (JobBase.url job))])"
    by (auto simp: create_job_def)
  show ?thesis
  proof (cases "insert_one s ?doc new_id")
    case (Inl e)
    with assms nf show ?thesis by (simp add: create_job_def)
  next
    case (Inr p)
    obtain i s'' where p: "p = (i, s'')" by (cases p)
    from insert_one_Inr [OF Inr [unfolded p]] have "i = new_id" by simp
    with assms nf Inr p show ?thesis by (auto simp: create_job_def)
  qed
qed

text \<open>
  Claim C9. After a successful create, get-by-ID with the identifier the create
  returned (the string of the new ObjectId, found under \<^verbatim>\<open>id\<close> in the response)
  succeeds on the collection the create left and returns the same response.
\<close>

theorem create_job_then_get_job:
  assumes "create_job s job now new_id = (Inr r, s')"
  shows "dict_get r ''id'' = Some (BStr (str_oid new_id)) \<and> get_job s' (str_oid new_id) = Inr r"
proof -
  from create_job_Inr [OF assms] have h: "helper_response (find_one s' [(''_id'', BOid new_id)]) = Inr r" .
  then obtain j where j: "find_one s' [(''_id'', BOid new_id)] = Some j" "job_helper j = Inr r"
    unfolding helper_response_Inr by (elim exE conjE)
  from find_one_SomeD [OF j(1)] have "get_or_none j ''_id'' = BOid new_id"
    by (simp add: matches_single)
  moreover from job_helper_id [OF j(2)] obtain i where
    i: "dict_get j ''_id'' = Some i" "dict_get r ''id'' = Some (BStr (py_str i))"
    by (elim exE conjE)
  ultimately have "i = BOid new_id" by (simp add: get_or_none_def)
  with i(2) have id: "dict_get r ''id'' = Some (BStr (str_oid new_id))" by simp
  from get_job_valid [OF ObjectId_str_oid, of s' new_id] j(1) h
  have "get_job s' (str_oid new_id) = Inr r" by simp
  with id show ?thesis by (rule conjI)
qed

theorem create_job_then_get_job_witness:
  "create_job []
     \<lparr>JobBase.title = Some ''Engineer'', company = Some ''Acme'', url = Some ''https://x/1'',
      platform = None, location = None, description = None, status = ''saved'',
      notes = None, date_saved = None\<rparr>
     \<lparr>year = 2024, month = 1, day = 2, hour = 3, minute = 4, second = 5, microsecond = 6789\<rparr>
     0x65a1b2c3d4e5f60718293a4b
   = (Inr [(''id'', BStr ''65a1b2c3d4e5f60718293a4b''), (''title'', BStr ''Engineer''),
           (''company'', BStr ''Acme''), (''location'', BNull), (''url'', BStr ''https://x/1''),
           (''platform'', BNull), (''description'', BNull), (''status'', BStr ''saved''),
           (''notes'', BNull), (''date_saved'', BStr ''2024-01-02T03:04:05.006000'')],
      [[(''_id'', BOid 0x65a1b2c3d4e5f60718293a4b), (''title'', BStr ''Engineer''),
        (''company'', BStr ''Acme''), (''url'', BStr ''https://x/1''), (''platform'', BNull),
        (''location'', BNull), (''description'', BNull), (''status'', BStr ''saved''),
        (''notes'', BNull),
        (''date_saved'', BDate \<lparr>year = 2024, month = 1, day = 2, hour = 3, minute = 4,
                                 second = 5, microsecond = 6000\<rparr>)]])
   \<and> get_job
       [[(''_id'', BOid 0x65a1b2c3d4e5f60718293a4b), (''title'', BStr ''Engineer''),
        (''company'', BStr ''Acme''), (''url'', BStr ''https://x/1''), (''platform'', BNull),
        (''location'', BNull), (''description'', BNull), (''status'', BStr ''saved''),
        (''notes'', BNull),
        (''date_saved'', BDate \<lparr>year = 2024, month = 1, day = 2, hour = 3, minute = 4,
                                 second = 5, microsecond = 6000\<rparr>)]]
       ''65a1b2c3d4e5f60718293a4b''
     = Inr [(''id'', BStr ''65a1b2c3d4e5f60718293a4b''), (''title'', BStr ''Engineer''),
           (''company'', BStr ''Acme''), (''location'', BNull), (''url'', BStr ''https://x/1''),
           (''platform'', BNull), (''description'', BNull), (''status'', BStr ''saved''),
           (''notes'', BNull), (''date_saved'', BStr ''2024-01-02T03:04:05.006000'')]"
proof -
  let ?job = "\<lparr>JobBase.title = Some ''Engineer'', company = Some ''Acme'',
      url = Some ''https://x/1'', platform = None, location = None, description = None,
      status = ''saved'', notes = None, date_saved = None\<rparr>"
  let ?now = "\<lparr>year = 2024, month = 1, day = 2, hour = 3, minute = 4, second = 5,
      microsecond = 6789\<rparr>"
  let ?r = "[(''id'', BStr ''65a1b2c3d4e5f60718293a4b''), (''title'', BStr ''Engineer''),
           (''company'', BStr ''Acme''), (''location'', BNull), (''url'', BStr ''https://x/1''),
           (''platform'', BNull), (''description'', BNull), (''status'', BStr ''saved''),
           (''notes'', BNull), (''date_saved'', BStr ''2024-01-02T03:04:05.006000'')]"
  let ?s' = "[[(''_id'', BOid 0x65a1b2c3d4e5f60718293a4b), (''title'', BStr ''Engineer''),
        (''company'', BStr ''Acme''), (''url'', BStr ''https://x/1''), (''platform'', BNull),
        (''location'', BNull), (''description'', BNull), (''status'', BStr ''saved''),
        (''notes'', BNull),
        (''date_saved'', BDate \<lparr>year = 2024, month = 1, day = 2, hour = 3, minute = 4,
                                 second = 5, microsecond = 6000\<rparr>)]]"
  have e: "create_job [] ?job ?now 0x65a1b2c3d4e5f60718293a4b = (Inr ?r, ?s')"
    by (simp add: create_job_def JobBase_dict_def opt_str_def opt_date_def store_eval helper_eval)
  have i: "str_oid 0x65a1b2c3d4e5f60718293a4b = ''65a1b2c3d4e5f60718293a4b''"
    by (simp add: str_oid_def to_digits_eval)
  from create_job_then_get_job [OF e] have "get_job ?s' (str_oid 0x65a1b2c3d4e5f60718293a4b) = Inr ?r"
    by (rule conjunct2)
  with i have "get_job ?s' ''65a1b2c3d4e5f60718293a4b'' = Inr ?r" by simp
  with e show ?thesis by (rule conjI)
qed

section \<open>Summary statistics (claim C8)\<close>

lemma sum_group_add: "sum_list (map snd (group_add acc g)) = Suc (sum_list (map snd acc))"
  by (induction acc g rule: group_add.induct) simp_all

lemma keys_group_add: "set (map fst (group_add acc g)) = insert g (set (map fst acc))"
  by (induction acc g rule: group_add.induct) auto

lemma distinct_group_add:
  "distinct (map fst acc) \<Longrightarrow> distinct (map fst (group_add acc g))"
proof (induction acc g rule: group_add.induct)
  case (1 g)
  then show ?case by simp
next
  case (2 g' n r g)
  show ?case
  proof (cases "g' = g")
    case True
    with 2 show ?thesis by simp
  next
    case False
    with 2 keys_group_add [of r g] show ?thesis by simp
  qed
qed

lemma fold_group_add:
  "sum_list (map snd (fold (\<lambda>d acc. group_add acc (f d)) s acc)) = length s + sum_list (map snd acc)
   \<and> (distinct (map fst acc) \<longrightarrow> distinct (map fst (fold (\<lambda>d acc. group_add acc (f d)) s acc)))"
  by (induction s arbitrary: acc) (simp_all add: sum_group_add distinct_group_add)

lemma sum_aggregate_group: "sum_list (map snd (aggregate_group s k)) = length s"
  using fold_group_add [of "\<lambda>d. get_or_none d k" s "[]"] by (simp add: aggregate_group_def)

lemma distinct_aggregate_group: "distinct (map fst (aggregate_group s k))"
  using fold_group_add [of "\<lambda>d. get_or_none d k" s "[]"] by (simp add: aggregate_group_def)

lemma dict_set_fresh: "k \<notin> fst ` set d \<Longrightarrow> dict_set d k v = d @ [(k, v)]"
  by (induction d k v rule: dict_set.induct) auto

lemma fold_dict_set_distinct:
  "distinct (map fst (acc @ xs)) \<Longrightarrow> fold (\<lambda>(g, n) m. dict_set m g n) xs acc = acc @ xs"
proof (induction xs arbitrary: acc)
  case Nil
  then show ?case by simp
next
  case (Cons x xs)
  obtain g n where x: "x = (g, n)" by (cases x)
  from Cons.prems x have f: "g \<notin> fst ` set acc" by auto
  from Cons.prems x have "distinct (map fst ((acc @ [(g, n)]) @ xs))" by simp
  from Cons.IH [OF this] x f show ?case by (simp add: dict_set_fresh)
qed

lemma dict_of_stats_distinct: "distinct (map fst xs) \<Longrightarrow> dict_of_stats xs = xs"
  using fold_dict_set_distinct [of "[]" xs] by (simp add: dict_of_stats_def)

text \<open>
  Claim C8. In every state of the collection the summary succeeds and its
  \<^verbatim>\<open>total_jobs\<close> is the sum of the counts of its \<^verbatim>\<open>status_breakdown\<close>, whose keys
  are distinct: every record, one with a missing or null status too (it goes under the
  key null), is counted under exactly one key.
\<close>

theorem summary_total_is_sum:
  "\<exists>sm. get_jobs_summary s = Inr sm
        \<and> total_jobs sm = sum_list (map snd (status_breakdown sm))
        \<and> total_jobs sm = length s
        \<and> distinct (map fst (status_breakdown sm))"
  by (simp add: get_jobs_summary_def count_documents_def matches_def
      dict_of_stats_distinct distinct_aggregate_group sum_aggregate_group)

theorem summary_total_is_sum_witness:
  "get_jobs_summary
     [[(''_id'', BOid 1), (''status'', BStr ''saved'')],
      [(''_id'', BOid 2), (''status'', BStr ''applied'')],
      [(''_id'', BOid 3)],
      [(''_id'', BOid 4), (''status'', BStr ''saved'')],
      [(''_id'', BOid 5), (''status'', BNull)]]
   = Inr \<lparr>total_jobs = 5,
          status_breakdown = [(BStr ''saved'', 2), (BStr ''applied'', 1), (BNull, 2)],
          platforms = [(BNull, 5)]\<rparr>
   \<and> (5::nat) = sum_list (map snd [(BStr ''saved'', 2::nat), (BStr ''applied'', 1), (BNull, 2)])"
proof -
  let ?s = "[[(''_id'', BOid 1), (''status'', BStr ''saved'')],
      [(''_id'', BOid 2), (''status'', BStr ''applied'')],
      [(''_id'', BOid 3)],
      [(''_id'', BOid 4), (''status'', BStr ''saved'')],
      [(''_id'', BOid 5), (''status'', BNull)]]"
  let ?sm = "\<lparr>total_jobs = 5,
          status_breakdown = [(BStr ''saved'', 2), (BStr ''applied'', 1), (BNull, 2)],
          platforms = [(BNull, 5)]\<rparr>"
  have e: "get_jobs_summary ?s = Inr ?sm"
    by (simp add: get_jobs_summary_def count_documents_def matches_def dict_of_stats_def
        aggregate_group_def get_platform_stats_def get_or_none_def dict_get_def)
  from summary_total_is_sum [of ?s] e
  have "total_jobs ?sm = sum_list (map snd (status_breakdown ?sm))" by simp
  then have "(5::nat) = sum_list (map snd [(BStr ''saved'', 2::nat), (BStr ''applied'', 1), (BNull, 2)])"
    by simp
  with e show ?thesis by (rule conjI)
qed

section \<open>List (claim C6)\<close>

lemma map_job_helper_wf:
  "list_all wf_doc ds \<Longrightarrow> map_job_helper ds = Inr (map toResponse ds)"
  by (induction ds) (simp_all add: job_helper_wf and_then_def)

lemma matches_Nil: "matches [] d"
  by (simp add: matches_def)

lemma matches_pair: "matches [(k, v), (k', v')] d \<longleftrightarrow> get_or_none d k = v \<and> get_or_none d k' = v'"
  by (simp add: matches_def field_eq_def)

lemma matches_filter_query:
  "matches (add_filter (add_filter [] ''status'' status_q) ''platform'' platform_q) d
     \<longleftrightarrow> effective_filter status_q platform_q d"
proof (cases status_q)
  case None
  show ?thesis
  proof (cases platform_q)
    case None
    with \<open>status_q = None\<close> show ?thesis
      by (simp add: add_filter_def opt_str_def effective_filter_def matches_Nil)
  next
    case (Some p)
    with \<open>status_q = None\<close> show ?thesis
      by (cases "p = []")
        (simp_all add: add_filter_def opt_str_def effective_filter_def matches_Nil matches_single)
  qed
next
  case (Some v)
  note sv = this
  show ?thesis
  proof (cases platform_q)
    case None
    with sv show ?thesis
      by (cases "v = []")
        (simp_all add: add_filter_def opt_str_def effective_filter_def matches_Nil matches_single)
  next
    case (Some p)
    with sv show ?thesis
      by (cases "v = []"; cases "p = []")
        (simp_all add: add_filter_def opt_str_def effective_filter_def matches_Nil
          matches_single matches_pair)
  qed
qed

lemma sorted_sort_desc:
  "sorted_wrt (\<lambda>a b. sort_field k b \<le> sort_field k a) (sort_desc k ds)"
proof -
  have "sorted (map (sort_field k) (sort_key (sort_field k) ds))" by (rule sorted_sort_key)
  then have "sorted_wrt (\<lambda>a b. sort_field k a \<le> sort_field k b) (sort_key (sort_field k) ds)"
    by (simp add: sorted_map)
  then show ?thesis
    by (simp add: sort_desc_def sorted_wrt_rev)
qed

lemma mset_sort_desc: "mset (sort_desc k ds) = mset ds"
  by (simp add: sort_desc_def)

lemma set_sort_desc: "set (sort_desc k ds) = set ds"
  by (simp add: sort_desc_def)

lemma to_list_ok:
  "0 \<le> skip \<Longrightarrow> skip < 2 ^ 63 \<Longrightarrow> 0 \<le> limit \<Longrightarrow> limit < 2 ^ 63 \<Longrightarrow>
     to_list (Inr ds) skip limit = Inr (take (nat limit) (drop (nat skip) ds))"
  by (simp add: to_list_def)

text \<open>The order of the sort on dates is the order of time; a missing date comes last.\<close>

lemma sort_field_dates:
  "bson_key (BDate a) \<le> bson_key (BDate b) \<longleftrightarrow> dt_fields a \<le> dt_fields b"
  "bson_key BNull \<le> bson_key (BDate b)"
  by (simp_all add: less_eq_prod_def)

text \<open>
  Claim C6, as far as it fails. A status filter supplied as the empty string is not
  applied: the list holds a record whose status is not the empty string.
\<close>

theorem get_jobs_empty_status_not_applied:
  "get_jobs
     [[(''_id'', BOid 1), (''title'', BStr ''Engineer''), (''company'', BStr ''Acme''),
       (''url'', BStr ''https://x/1''), (''platform'', BNull), (''status'', BStr ''saved'')]]
     (Some '''') None 50 0
   = Inr [[(''id'', BStr ''000000000000000000000001''), (''title'', BStr ''Engineer''),
           (''company'', BStr ''Acme''), (''location'', BNull), (''url'', BStr ''https://x/1''),
           (''platform'', BNull), (''description'', BNull), (''status'', BStr ''saved''),
           (''notes'', BNull), (''date_saved'', BNull)]]
   \<and> filter (supplied_filter (Some '''') None)
       [[(''_id'', BOid 1), (''title'', BStr ''Engineer''), (''company'', BStr ''Acme''),
         (''url'', BStr ''https://x/1''), (''platform'', BNull), (''status'', BStr ''saved'')]]
     = []"
  by (simp add: get_jobs_def add_filter_def opt_str_def matches_def sort_desc_def to_list_def
      list_response_def supplied_filter_def helper_eval)

text \<open>
  Claim C6, amended. For every list request with skip and limit not negative and below
  2^63 (the largest the driver encodes), on a collection in which every document carries
  an ObjectId under \<^verbatim>\<open>_id\<close>, the keys \<^verbatim>\<open>title\<close>, \<^verbatim>\<open>company\<close>, \<^verbatim>\<open>url\<close>,
  \<^verbatim>\<open>platform\<close> and \<^verbatim>\<open>status\<close>, and a \<^verbatim>\<open>date_saved\<close> that is missing, null or a
  date (this is \<open>wf_doc\<close>), the returned sequence is the response shapes of the records
  whose status equals the status filter and whose platform equals the platform filter,
  a filter applying only when it is supplied and is not the empty string, in an order
  that is descending in date_saved, with the first skip records dropped and then at most
  limit records kept; a request that leaves limit and skip out is the request with
  limit 50 and skip 0.
\<close>

theorem get_jobs_result:
  assumes "list_all wf_doc s"
    and "0 \<le> skip" "skip < 2 ^ 63" "0 \<le> limit" "limit < 2 ^ 63"
  shows "\<exists>ds. mset ds = mset (filter (effective_filter status_q platform_q) s)
       \<and> sorted_wrt (\<lambda>a b. sort_field ''date_saved'' b \<le> sort_field ''date_saved'' a) ds
       \<and> get_jobs s status_q platform_q limit skip
           = Inr (map toResponse (take (nat limit) (drop (nat skip) ds)))
       \<and> (\<forall>d\<in>set ds. d \<in> set s \<and> job_helper d = Inr (toResponse d))
       \<and> get_jobs_request s status_q platform_q None None = get_jobs s status_q platform_q 50 0"
proof -
  let ?q = "add_filter (add_filter [] ''status'' status_q) ''platform'' platform_q"
  let ?ds = "sort_desc ''date_saved'' (filter (matches ?q) s)"
  have f: "filter (matches ?q) s = filter (effective_filter status_q platform_q) s"
    by (rule filter_cong) (simp_all add: matches_filter_query)
  have m: "mset ?ds = mset (filter (effective_filter status_q platform_q) s)"
    by (simp add: mset_sort_desc f del: mset_filter)
  have o: "sorted_wrt (\<lambda>a b. sort_field ''date_saved'' b \<le> sort_field ''date_saved'' a) ?ds"
    by (rule sorted_sort_desc)
  have sub: "set ?ds \<subseteq> set s" by (simp add: set_sort_desc)
  have wf: "\<forall>d\<in>set ?ds. d \<in> set s \<and> job_helper d = Inr (toResponse d)"
  proof
    fix d assume "d \<in> set ?ds"
    with sub have d: "d \<in> set s" by blast
    with assms(1) have "wf_doc d" by (simp add: list_all_iff)
    with d show "d \<in> set s \<and> job_helper d = Inr (toResponse d)" by (simp add: job_helper_wf)
  qed
  have "set (take (nat limit) (drop (nat skip) ?ds)) \<subseteq> set s"
    using sub set_take_subset set_drop_subset by fast
  with assms(1) have "list_all wf_doc (take (nat limit) (drop (nat skip) ?ds))"
    unfolding list_all_iff by blast
  then have "map_job_helper (take (nat limit) (drop (nat skip) ?ds))
      = Inr (map toResponse (take (nat limit) (drop (nat skip) ?ds)))"
    by (rule map_job_helper_wf)
  then have g: "get_jobs s status_q platform_q limit skip
      = Inr (map toResponse (take (nat limit) (drop (nat skip) ?ds)))"
    using assms(2-5) by (simp add: get_jobs_def to_list_ok list_response_def)
  have r: "get_jobs_request s status_q platform_q None None = get_jobs s status_q platform_q 50 0"
    by (simp add: get_jobs_request_def)
  show ?thesis
    by (intro exI [of _ ?ds] conjI m o g wf r)
qed

theorem get_jobs_result_witness:
  "(\<exists>ds. mset ds = mset (filter (effective_filter (Some ''saved'') None)
     [[(''_id'', BOid 1), (''title'', BStr ''Engineer''), (''company'', BStr ''Acme''),
       (''url'', BStr ''https://x/1''), (''platform'', BNull), (''status'', BStr ''saved''),
       (''date_saved'', BDate \<lparr>year = 2024, month = 1, day = 2, hour = 3, minute = 4,
                                second = 5, microsecond = 0\<rparr>)],
      [(''_id'', BOid 2), (''title'', BStr ''Analyst''), (''company'', BStr ''Initech''),
       (''url'', BStr ''https://x/2''), (''platform'', BNull), (''status'', BStr ''applied''),
       (''date_saved'', BDate \<lparr>year = 2024, month = 2, day = 2, hour = 3, minute = 4,
                                second = 5, microsecond = 0\<rparr>)],
      [(''_id'', BOid 3), (''title'', BStr ''Manager''), (''company'', BStr ''Globex''),
       (''url'', BStr ''https://x/3''), (''platform'', BNull), (''status'', BStr ''saved''),
       (''date_saved'', BDate \<lparr>year = 2024, month = 3, day = 1, hour = 0, minute = 0,
                                second = 0, microsecond = 0\<rparr>)]])
       \<and> sorted_wrt (\<lambda>a b. sort_field ''date_saved'' b \<le> sort_field ''date_saved'' a) ds
       \<and> Inr [[(''id'', BStr ''000000000000000000000003''), (''title'', BStr ''Manager''),
           (''company'', BStr ''Globex''), (''location'', BNull), (''url'', BStr ''https://x/3''),
           (''platform'', BNull), (''description'', BNull), (''status'', BStr ''saved''),
           (''notes'', BNull), (''date_saved'', BStr ''2024-03-01T00:00:00'')],
          [(''id'', BStr ''000000000000000000000001''), (''title'', BStr ''Engineer''),
           (''company'', BStr ''Acme''), (''location'', BNull), (''url'', BStr ''https://x/1''),
           (''platform'', BNull), (''description'', BNull), (''status'', BStr ''saved''),
           (''notes'', BNull), (''date_saved'', BStr ''2024-01-02T03:04:05'')]]
         = (Inr (map toResponse (take (nat 50) (drop (nat 0) ds))) :: http_error + document list))
   \<and> get_jobs
     [[(''_id'', BOid 1), (''title'', BStr ''Engineer''), (''company'', BStr ''Acme''),
       (''url'', BStr ''https://x/1''), (''platform'', BNull), (''status'', BStr ''saved''),
       (''date_saved'', BDate \<lparr>year = 2024, month = 1, day = 2, hour = 3, minute = 4,
                                second = 5, microsecond = 0\<rparr>)],
      [(''_id'', BOid 2), (''title'', BStr ''Analyst''), (''company'', BStr ''Initech''),
       (''url'', BStr ''https://x/2''), (''platform'', BNull), (''status'', BStr ''applied''),
       (''date_saved'', BDate \<lparr>year = 2024, month = 2, day = 2, hour = 3, minute = 4,
                                second = 5, microsecond = 0\<rparr>)],
      [(''_id'', BOid 3), (''title'', BStr ''Manager''), (''company'', BStr ''Globex''),
       (''url'', BStr ''https://x/3''), (''platform'', BNull), (''status'', BStr ''saved''),
       (''date_saved'', BDate \<lparr>year = 2024, month = 3, day = 1, hour = 0, minute = 0,
                                second = 0, microsecond = 0\<rparr>)]]
     (Some ''saved'') None 50 0
   = Inr [[(''id'', BStr ''000000000000000000000003''), (''title'', BStr ''Manager''),
           (''company'', BStr ''Globex''), (''location'', BNull), (''url'', BStr ''https://x/3''),
           (''platform'', BNull), (''description'', BNull), (''status'', BStr ''saved''),
           (''notes'', BNull), (''date_saved'', BStr ''2024-03-01T00:00:00'')],
          [(''id'', BStr ''000000000000000000000001''), (''title'', BStr ''Engineer''),
           (''company'', BStr ''Acme''), (''location'', BNull), (''url'', BStr ''https://x/1''),
           (''platform'', BNull), (''description'', BNull), (''status'', BStr ''saved''),
           (''notes'', BNull), (''date_saved'', BStr ''2024-01-02T03:04:05'')]]"
proof -
  let ?s = "[[(''_id'', BOid 1), (''title'', BStr ''Engineer''), (''company'', BStr ''Acme''),
       (''url'', BStr ''https://x/1''), (''platform'', BNull), (''status'', BStr ''saved''),
       (''date_saved'', BDate \<lparr>year = 2024, month = 1, day = 2, hour = 3, minute = 4,
                                second = 5, microsecond = 0\<rparr>)],
      [(''_id'', BOid 2), (''title'', BStr ''Analyst''), (''company'', BStr ''Initech''),
       (''url'', BStr ''https://x/2''), (''platform'', BNull), (''status'', BStr ''applied''),
       (''date_saved'', BDate \<lparr>year = 2024, month = 2, day = 2, hour = 3, minute = 4,
                                second = 5, microsecond = 0\<rparr>)],
      [(''_id'', BOid 3), (''title'', BStr ''Manager''), (''company'', BStr ''Globex''),
       (''url'', BStr ''https://x/3''), (''platform'', BNull), (''status'', BStr ''saved''),
       (''date_saved'', BDate \<lparr>year = 2024, month = 3, day = 1, hour = 0, minute = 0,
                                second = 0, microsecond = 0\<rparr>)]]"
  let ?rs = "[[(''id'', BStr ''000000000000000000000003''), (''title'', BStr ''Manager''),
           (''company'', BStr ''Globex''), (''location'', BNull), (''url'', BStr ''https://x/3''),
           (''platform'', BNull), (''description'', BNull), (''status'', BStr ''saved''),
           (''notes'', BNull), (''date_saved'', BStr ''2024-03-01T00:00:00'')],
          [(''id'', BStr ''000000000000000000000001''), (''title'', BStr ''Engineer''),
           (''company'', BStr ''Acme''), (''location'', BNull), (''url'', BStr ''https://x/1''),
           (''platform'', BNull), (''description'', BNull), (''status'', BStr ''saved''),
           (''notes'', BNull), (''date_saved'', BStr ''2024-01-02T03:04:05'')]]"
  have w: "list_all wf_doc ?s"
    by (simp add: wf_doc_def dict_get_def get_or_none_def)
  have a: "(0::int) \<le> 0" "(0::int) < 2 ^ 63" "(0::int) \<le> 50" "(50::int) < 2 ^ 63"
    by simp_all
  have e: "get_jobs ?s (Some ''saved'') None 50 0 = Inr ?rs"
    by (simp add: get_jobs_def add_filter_def opt_str_def matches_def field_eq_def sort_desc_def
        sort_field_def dt_fields_def to_list_def list_response_def helper_eval)
  from get_jobs_result [OF w a, of "Some ''saved''" None] obtain ds where
    m: "mset ds = mset (filter (effective_filter (Some ''saved'') None) ?s)" and
    o: "sorted_wrt (\<lambda>a b. sort_field ''date_saved'' b \<le> sort_field ''date_saved'' a) ds" and
    g: "get_jobs ?s (Some ''saved'') None 50 0
          = Inr (map toResponse (take (nat 50) (drop (nat 0) ds)))"
    by (elim exE conjE)
  from g e have "Inr ?rs
      = (Inr (map toResponse (take (nat 50) (drop (nat 0) ds))) :: http_error + document list)"
    by simp
  with m o have "\<exists>ds. mset ds = mset (filter (effective_filter (Some ''saved'') None) ?s)
       \<and> sorted_wrt (\<lambda>a b. sort_field ''date_saved'' b \<le> sort_field ''date_saved'' a) ds
       \<and> Inr ?rs
         = (Inr (map toResponse (take (nat 50) (drop (nat 0) ds))) :: http_error + document list)"
    by (intro exI [of _ ds] conjI)
  then show ?thesis using e by (rule conjI)
qed

section \<open>Search (claim C2)\<close>

lemma icontains_iff: "icontains q s \<longleftrightarrow> (\<exists>ps ss. map lower s = ps @ map lower q @ ss)"
proof (induction s)
  case Nil
  then show ?case by auto
next
  case (Cons x s)
  have p: "map lower q = take (length q) (map lower (x # s))
             \<longleftrightarrow> (\<exists>ss. map lower (x # s) = map lower q @ ss)"
    by (metis append_eq_conv_conj length_map append_take_drop_id)
  show ?case
  proof
    assume "icontains q (x # s)"
    then consider "map lower q = take (length q) (map lower (x # s))" | "icontains q s" by auto
    then show "\<exists>ps ss. map lower (x # s) = ps @ map lower q @ ss"
    proof cases
      case 1
      with p obtain ss where "map lower (x # s) = [] @ map lower q @ ss" by auto
      then show ?thesis by blast
    next
      case 2
      with Cons.IH obtain ps ss where "map lower s = ps @ map lower q @ ss" by blast
      then have "map lower (x # s) = (lower x # ps) @ map lower q @ ss" by simp
      then show ?thesis by blast
    qed
  next
    assume "\<exists>ps ss. map lower (x # s) = ps @ map lower q @ ss"
    then obtain ps ss where e: "map lower (x # s) = ps @ map lower q @ ss" by blast
    show "icontains q (x # s)"
    proof (cases ps)
      case Nil
      with e p show ?thesis by auto
    next
      case (Cons y ps')
      with e have "map lower s = ps' @ map lower q @ ss" by simp
      with Cons.IH show ?thesis by auto
    qed
  qed
qed

lemma rx_items_plain:
  "\<forall>c\<in>set q. \<not> rx_special c \<Longrightarrow> rx_items q = Some (map (\<lambda>c. One (Lit c)) q)"
proof (induction q rule: rx_items.induct)
  case 1
  then show ?case by simp
next
  case (2 c cs)
  from "2.prems" have c: "\<not> rx_special c" and cs: "\<forall>c\<in>set cs. \<not> rx_special c" by simp_all
  from c have nd: "c \<noteq> CHR ''.''" by (auto simp: rx_special_def)
  show ?case
  proof (cases cs)
    case Nil
    with c nd show ?thesis by (simp add: atom_of_def)
  next
    case (Cons c' rest)
    with cs have "\<not> rx_special c'" by simp
    then have ns: "c' \<noteq> CHR ''*''" by (auto simp: rx_special_def)
    from "2.IH"(2) [OF _ Cons ns cs] c
    have "rx_items cs = Some (map (\<lambda>c. One (Lit c)) cs)" by simp
    with Cons c nd ns show ?thesis by (simp add: atom_of_def)
  qed
qed

lemma rx_compile_plain:
  assumes "\<forall>c\<in>set q. \<not> rx_special c"
  shows "rx_compile q = Compiled (map (\<lambda>c. One (Lit c)) q)"
proof -
  have s: "rx_special CHR ''*''" "rx_special CHR ''(''" by (simp_all add: rx_special_def)
  with assms have "CHR ''*'' \<notin> set q" "CHR ''('' \<notin> set q" by auto
  moreover from this(1) have "\<not> (q \<noteq> [] \<and> hd q = CHR ''*'')" by (cases q) auto
  ultimately show ?thesis
    using rx_items_plain [OF assms] by (simp add: rx_compile_def)
qed

lemma match_here_plain:
  "match_here (map (\<lambda>c. One (Lit c)) q) s \<longleftrightarrow> map lower q = take (length q) (map lower s)"
proof (induction q arbitrary: s)
  case Nil
  then show ?case by simp
next
  case (Cons c q)
  then show ?case by (cases s) auto
qed

lemma rx_search_plain: "rx_search (map (\<lambda>c. One (Lit c)) q) s \<longleftrightarrow> icontains q s"
  by (induction s) (simp_all add: match_here_plain)

lemma regex_filter_plain:
  "(regex_field (map (\<lambda>c. One (Lit c)) q) ''title'' d
      \<or> regex_field (map (\<lambda>c. One (Lit c)) q) ''company'' d) \<longleftrightarrow> substring_match q d"
  by (simp add: regex_field_def substring_match_def rx_search_plain split: bson.splits)

text \<open>
  The part of claim C2 that the code meets: for a query without any character that is
  special in a regular expression, the search on a well-formed collection returns the
  response shapes of exactly the records whose title or company contains the query as a
  substring, letters compared without case, in an order that is descending in
  date_saved, cut to limit.
\<close>

lemma search_jobs_plain_query:
  assumes "\<forall>c\<in>set q. \<not> rx_special c"
    and "list_all wf_doc s"
    and "0 \<le> limit" "limit < 2 ^ 63"
  shows "\<exists>ds. mset ds = mset (filter (substring_match q) s)
       \<and> sorted_wrt (\<lambda>a b. sort_field ''date_saved'' b \<le> sort_field ''date_saved'' a) ds
       \<and> search_jobs s q limit = Some (Inr (map toResponse (take (nat limit) ds)))"
proof -
  let ?p = "map (\<lambda>c. One (Lit c)) q"
  let ?f = "\<lambda>d. regex_field ?p ''title'' d \<or> regex_field ?p ''company'' d"
  let ?ds = "sort_desc ''date_saved'' (filter ?f s)"
  have f: "filter ?f s = filter (substring_match q) s"
    by (rule filter_cong) (simp_all add: regex_filter_plain)
  have m: "mset ?ds = mset (filter (substring_match q) s)"
    by (simp add: mset_sort_desc f del: mset_filter)
  have o: "sorted_wrt (\<lambda>a b. sort_field ''date_saved'' b \<le> sort_field ''date_saved'' a) ?ds"
    by (rule sorted_sort_desc)
  have "set (take (nat limit) ?ds) \<subseteq> set s"
    using set_take_subset [of "nat limit" ?ds] by (auto simp: set_sort_desc)
  with assms(2) have "list_all wf_doc (take (nat limit) ?ds)"
    unfolding list_all_iff by blast
  then have "map_job_helper (take (nat limit) ?ds) = Inr (map toResponse (take (nat limit) ?ds))"
    by (rule map_job_helper_wf)
  then have g: "search_jobs s q limit = Some (Inr (map toResponse (take (nat limit) ?ds)))"
    using assms(3,4) rx_compile_plain [OF assms(1)]
    by (simp add: search_jobs_def to_list_def list_response_def)
  show ?thesis
    by (intro exI [of _ ?ds] conjI m o g)
qed

text \<open>
  Claim C2 against the code. The query goes into \<^verbatim>\<open>$regex\<close> unescaped, so it is a
  pattern and not a substring. The query \<^verbatim>\<open>.\<close> returns a record whose title and company
  hold no full stop; the query \<^verbatim>\<open>(\<close> is an invalid pattern and ends in the error 500,
  although a record's title contains it.
\<close>

theorem search_jobs_query_is_pattern:
  "search_jobs
     [[(''_id'', BOid 1), (''title'', BStr ''Engineer''), (''company'', BStr ''Acme''),
       (''url'', BStr ''https://x/1''), (''platform'', BNull), (''status'', BStr ''saved'')]]
     ''.'' 20
   = Some (Inr [[(''id'', BStr ''000000000000000000000001''), (''title'', BStr ''Engineer''),
           (''company'', BStr ''Acme''), (''location'', BNull), (''url'', BStr ''https://x/1''),
           (''platform'', BNull), (''description'', BNull), (''status'', BStr ''saved''),
           (''notes'', BNull), (''date_saved'', BNull)]])
   \<and> \<not> substring_match ''.''
       [(''_id'', BOid 1), (''title'', BStr ''Engineer''), (''company'', BStr ''Acme''),
        (''url'', BStr ''https://x/1''), (''platform'', BNull), (''status'', BStr ''saved'')]
   \<and> search_jobs
     [[(''_id'', BOid 2), (''title'', BStr ''Engineer (remote)''), (''company'', BStr ''Acme''),
       (''url'', BStr ''https://x/2''), (''platform'', BNull), (''status'', BStr ''saved'')]]
     ''('' 20
   = Some (Inl (HTTPException 500 (StrOf OperationFailure)))
   \<and> substring_match ''(''
       [(''_id'', BOid 2), (''title'', BStr ''Engineer (remote)''), (''company'', BStr ''Acme''),
        (''url'', BStr ''https://x/2''), (''platform'', BNull), (''status'', BStr ''saved'')]"
proof (intro conjI)
  show "search_jobs
     [[(''_id'', BOid 1), (''title'', BStr ''Engineer''), (''company'', BStr ''Acme''),
       (''url'', BStr ''https://x/1''), (''platform'', BNull), (''status'', BStr ''saved'')]]
     ''.'' 20
   = Some (Inr [[(''id'', BStr ''000000000000000000000001''), (''title'', BStr ''Engineer''),
           (''company'', BStr ''Acme''), (''location'', BNull), (''url'', BStr ''https://x/1''),
           (''platform'', BNull), (''description'', BNull), (''status'', BStr ''saved''),
           (''notes'', BNull), (''date_saved'', BNull)]])"
    by (simp add: search_jobs_def rx_compile_def rx_special_def atom_of_def regex_field_def
        sort_desc_def to_list_def list_response_def helper_eval)
  show "\<not> substring_match ''.''
       [(''_id'', BOid 1), (''title'', BStr ''Engineer''), (''company'', BStr ''Acme''),
        (''url'', BStr ''https://x/1''), (''platform'', BNull), (''status'', BStr ''saved'')]"
    by (simp add: substring_match_def get_or_none_def dict_get_def lower_def)
  show "search_jobs
     [[(''_id'', BOid 2), (''title'', BStr ''Engineer (remote)''), (''company'', BStr ''Acme''),
       (''url'', BStr ''https://x/2''), (''platform'', BNull), (''status'', BStr ''saved'')]]
     ''('' 20
   = Some (Inl (HTTPException 500 (StrOf OperationFailure)))"
    by (simp add: search_jobs_def rx_compile_def to_list_def list_response_def server_error_def)
  show "substring_match ''(''
       [(''_id'', BOid 2), (''title'', BStr ''Engineer (remote)''), (''company'', BStr ''Acme''),
        (''url'', BStr ''https://x/2''), (''platform'', BNull), (''status'', BStr ''saved'')]"
    by (simp add: substring_match_def get_or_none_def dict_get_def lower_def)
qed

section \<open>The handlers keep the collection well formed\<close>

text \<open>
  The theorems above that speak of a well-formed collection apply to every collection
  that the handlers themselves have filled: the empty collection is well formed, and
  create, update and delete keep it so.
\<close>

lemma wf_store_Nil: "wf_store []"
  by (simp add: wf_store_def)

lemma stored_value_opt_str: "stored_value (opt_str x) = opt_str x"
  by (cases x) (simp_all add: opt_str_def)

lemma wf_doc_created:
  "wf_doc ((''_id'', BOid new_id) #
      map (\<lambda>(k, v). (k, stored_value v)) (dict_set (JobBase_dict job) ''date_saved'' (BDate now)))"
  by (simp add: JobBase_dict_def wf_doc_def dict_get_def get_or_none_def)

lemma create_job_store:
  "snd (create_job s job now new_id) = s
   \<or> (find_one s [(''_id'', BOid new_id)] = None
      \<and> snd (create_job s job now new_id) =
          s @ [(''_id'', BOid new_id) #
               map (\<lambda>(k, v). (k, stored_value v))
                 (dict_set (JobBase_dict job) ''date_saved'' (BDate now))])"
  by (simp add: create_job_def insert_one_def)

lemma create_job_wf:
  assumes "wf_store s"
  shows "wf_store (snd (create_job s job now new_id))"
proof -
  let ?new = "(''_id'', BOid new_id) #
      map (\<lambda>(k, v). (k, stored_value v)) (dict_set (JobBase_dict job) ''date_saved'' (BDate now))"
  from create_job_store [of s job now new_id] show ?thesis
  proof
    assume "snd (create_job s job now new_id) = s"
    with assms show ?thesis by simp
  next
    assume a: "find_one s [(''_id'', BOid new_id)] = None
      \<and> snd (create_job s job now new_id) = s @ [?new]"
    then have "\<forall>d\<in>set s. get_or_none d ''_id'' \<noteq> BOid new_id"
      by (simp add: find_one_None_iff matches_single)
    moreover have "get_or_none ?new ''_id'' = BOid new_id"
      by (simp add: get_or_none_def dict_get_def)
    ultimately have "get_or_none ?new ''_id'' \<notin> (\<lambda>d. get_or_none d ''_id'') ` set s"
      by auto
    with assms a wf_doc_created [of new_id job now] show ?thesis
      by (simp add: wf_store_def)
  qed
qed

lemma update_one_nth:
  "m < length s \<Longrightarrow>
     snd (update_one s q upd) ! m = s ! m \<or> snd (update_one s q upd) ! m = set_fields upd (s ! m)"
proof (induction s arbitrary: m)
  case Nil
  then show ?case by simp
next
  case (Cons d s)
  show ?case
  proof (cases m)
    case 0
    then show ?thesis by (simp add: update_one_Cons del: update_one.simps(2))
  next
    case (Suc n)
    with Cons.prems have "n < length s" by simp
    from Cons.IH [OF this] Suc show ?thesis
      by (simp add: update_one_Cons del: update_one.simps(2))
  qed
qed

lemma dict_set_keeps_key:
  "dict_get d k' \<noteq> None \<Longrightarrow> dict_get (dict_set d k v) k' \<noteq> None"
  by (simp add: dict_get_def dict_get_dict_set)

lemma set_fields_keeps_key:
  "dict_get d k \<noteq> None \<Longrightarrow> dict_get (set_fields upd d) k \<noteq> None"
  unfolding set_fields_def
proof (induction upd arbitrary: d)
  case Nil
  then show ?case by simp
next
  case (Cons a upd)
  obtain k' v' where a: "a = (k', v')" by (cases a)
  from Cons.prems have "dict_get (dict_set d k' (stored_value v')) k \<noteq> None"
    by (rule dict_set_keeps_key)
  from Cons.IH [OF this] a show ?case by simp
qed

lemma wf_doc_set_fields:
  assumes "wf_doc d" "''_id'' \<notin> fst ` set upd" "''date_saved'' \<notin> fst ` set upd"
  shows "wf_doc (set_fields upd d)"
proof -
  have i: "dict_get (set_fields upd d) ''_id'' = dict_get d ''_id''"
    using assms(2) by (rule set_fields_other)
  have t: "dict_get (set_fields upd d) ''date_saved'' = dict_get d ''date_saved''"
    using assms(3) by (rule set_fields_other)
  have k: "list_all (\<lambda>k. dict_get (set_fields upd d) k \<noteq> None)
      [''title'', ''company'', ''url'', ''platform'', ''status'']"
    unfolding list_all_iff
  proof
    fix k assume "k \<in> set [''title'', ''company'', ''url'', ''platform'', ''status'']"
    with assms(1) have "dict_get d k \<noteq> None"
      unfolding wf_doc_def list_all_iff by blast
    then show "dict_get (set_fields upd d) k \<noteq> None" by (rule set_fields_keeps_key)
  qed
  from assms(1) have a: "case dict_get d ''_id'' of Some (BOid x) \<Rightarrow> True | _ \<Rightarrow> False"
    and b: "case get_or_none d ''date_saved'' of BNull \<Rightarrow> True | BDate t \<Rightarrow> True | _ \<Rightarrow> False"
    unfolding wf_doc_def by blast+
  from b t have b': "case get_or_none (set_fields upd d) ''date_saved'' of
      BNull \<Rightarrow> True | BDate t \<Rightarrow> True | _ \<Rightarrow> False"
    by (simp add: get_or_none_def)
  from a i have a': "case dict_get (set_fields upd d) ''_id'' of
      Some (BOid x) \<Rightarrow> True | _ \<Rightarrow> False"
    by simp
  show ?thesis unfolding wf_doc_def by (intro conjI a' k b')
qed

lemma update_job_wf:
  assumes "wf_store s"
  shows "wf_store (snd (update_job s job_id u))"
proof -
  let ?upd = "filter (\<lambda>(k, v). v \<noteq> BNull) (JobUpdate_dict u)"
  have ks: "''_id'' \<notin> fst ` set ?upd" "''date_saved'' \<notin> fst ` set ?upd"
    using update_data_keys [of u] by auto
  from update_job_store [of s job_id u] show ?thesis
  proof
    assume "snd (update_job s job_id u) = s"
    with assms show ?thesis by simp
  next
    assume "\<exists>i. snd (update_job s job_id u) = snd (update_one s [(''_id'', i)] ?upd)"
    then obtain i where e: "snd (update_job s job_id u) = snd (update_one s [(''_id'', i)] ?upd)"
      by blast
    let ?s' = "snd (update_one s [(''_id'', i)] ?upd)"
    have len: "length ?s' = length s" by (rule update_one_length)
    have w: "list_all wf_doc ?s'"
      unfolding list_all_length
    proof (intro allI impI)
      fix m assume "m < length ?s'"
      with len have m: "m < length s" by simp
      with assms have "wf_doc (s ! m)" by (simp add: wf_store_def list_all_length)
      then have "wf_doc (set_fields ?upd (s ! m))" using ks by (rule wf_doc_set_fields)
      with \<open>wf_doc (s ! m)\<close> update_one_nth [OF m, of "[(''_id'', i)]" ?upd]
      show "wf_doc (?s' ! m)" by (elim disjE) simp_all
    qed
    have "map (\<lambda>d. get_or_none d ''_id'') ?s' = map (\<lambda>d. get_or_none d ''_id'') s"
      by (rule nth_equalityI)
        (simp_all add: len get_or_none_def update_one_frame [OF ks(1)])
    with assms w e show ?thesis by (simp add: wf_store_def)
  qed
qed

lemma delete_one_Cons:
  "delete_one (d # s) q =
     (if matches q d then (1, s) else (fst (delete_one s q), d # snd (delete_one s q)))"
  by (simp split: prod.splits)

lemma set_delete_one: "set (snd (delete_one s q)) \<subseteq> set s"
  by (induction s) (auto simp: delete_one_Cons simp del: delete_one.simps(2))

lemma delete_one_wf: "wf_store s \<Longrightarrow> wf_store (snd (delete_one s q))"
proof (induction s)
  case Nil
  then show ?case by simp
next
  case (Cons d s)
  from Cons.prems have t: "wf_store s" by (simp add: wf_store_def)
  show ?case
  proof (cases "matches q d")
    case True
    with t show ?thesis by (simp add: delete_one_Cons del: delete_one.simps(2))
  next
    case False
    from Cons.prems have "get_or_none d ''_id'' \<notin> (\<lambda>d. get_or_none d ''_id'') ` set s"
      by (simp add: wf_store_def)
    with set_delete_one [of s q]
    have "get_or_none d ''_id'' \<notin> (\<lambda>d. get_or_none d ''_id'') ` set (snd (delete_one s q))"
      by blast
    with False Cons.IH [OF t] Cons.prems show ?thesis
      by (simp add: delete_one_Cons wf_store_def del: delete_one.simps(2))
  qed
qed

lemma delete_job_wf:
  assumes "wf_store s"
  shows "wf_store (snd (delete_job s job_id))"
proof (cases "ObjectId job_id")
  case (Inl e)
  with assms show ?thesis by (simp add: delete_job_def)
next
  case (Inr i)
  with assms delete_one_wf [OF assms, of "[(''_id'', i)]"] show ?thesis
    by (simp add: delete_job_def is_valid_Inr case_prod_unfold)
qed

text \<open>
  A create succeeds when no record has the url of the request and the new ObjectId is
  not in use: it appends one document and returns its response shape.
\<close>

lemma create_job_succeeds:
  assumes "\<forall>d\<in>set s. get_or_none d ''url'' \<noteq> opt_str (JobBase.url job)"
    and "\<forall>d\<in>set s. get_or_none d ''_id'' \<noteq> BOid new_id"
  shows "create_job s job now new_id =
     (Inr (toResponse ((''_id'', BOid new_id) #
            map (\<lambda>(k, v). (k, stored_value v))
              (dict_set (JobBase_dict job) ''date_saved'' (BDate now)))),
      s @ [(''_id'', BOid new_id) #
            map (\<lambda>(k, v). (k, stored_value v))
              (dict_set (JobBase_dict job) ''date_saved'' (BDate now))])"
proof -
  let ?new = "(''_id'', BOid new_id) #
      map (\<lambda>(k, v). (k, stored_value v)) (dict_set (JobBase_dict job) ''date_saved'' (BDate now))"
  from assms(1) have u: "find_one s [(''url'', opt_str (JobBase.url job))] = None"
    by (simp add: find_one_None_iff matches_single)
  from assms(2) have i: "find_one s [(''_id'', BOid new_id)] = None"
    by (simp add: find_one_None_iff matches_single)
  have g: "get_or_none ?new ''_id'' = BOid new_id"
    by (simp add: get_or_none_def dict_get_def)
  then have m: "matches [(''_id'', BOid new_id)] ?new" by (simp add: matches_single)
  have "\<forall>d'\<in>set (s @ [?new]). matches [(''_id'', BOid new_id)] d' \<longrightarrow> d' = ?new"
    using assms(2) by (auto simp: matches_single)
  with m have f: "find_one (s @ [?new]) [(''_id'', BOid new_id)] = Some ?new"
    by (intro find_one_unique) simp_all
  have h: "job_helper ?new = Inr (toResponse ?new)"
    using wf_doc_created by (rule job_helper_wf)
  from u i f h show ?thesis
    by (simp add: create_job_def found_def insert_one_def helper_response_def Let_def)
qed

end
